theory Spec2Isabelle
  imports Complex_Main "HOL-Library.Char_ord" "HOL-Library.List_Lexorder"
    "HOL-Library.Log_Nat"
begin

section \<open>Text and the part of Python's \<open>re\<close> that the analysers use\<close>

text \<open>
  A text is a \<open>string\<close>; each \<open>char\<close> stands for the Unicode code point of the same
  number, so the texts covered are those over the code points 0 to 255. The three
  analysers only ever ask three things of a character: its lower-case form
  (\<open>str.lower\<close>), whether \<open>\w\<close> matches it, and whether it is a newline.
  Floating-point numbers are rationals, see the detector below.
\<close>

definition is_upper_chr :: "char \<Rightarrow> bool" where
  "is_upper_chr c =
     (let n = (of_char c :: nat)
      in (65 \<le> n \<and> n \<le> 90) \<or> (192 \<le> n \<and> n \<le> 222 \<and> n \<noteq> 215))"

definition lower_chr :: "char \<Rightarrow> char" where
  "lower_chr c = (if is_upper_chr c then char_of ((of_char c :: nat) + 32) else c)"

definition lower :: "string \<Rightarrow> string" where
  "lower s = map lower_chr s"

text \<open>\<open>\w\<close> on a \<open>str\<close> pattern: the alphanumeric characters and the underscore.\<close>

definition is_word_chr :: "char \<Rightarrow> bool" where
  "is_word_chr c =
     (let n = (of_char c :: nat)
      in (48 \<le> n \<and> n \<le> 57) \<or> (65 \<le> n \<and> n \<le> 90) \<or> n = 95 \<or> (97 \<le> n \<and> n \<le> 122)
         \<or> n = 170 \<or> n = 178 \<or> n = 179 \<or> n = 181 \<or> n = 185 \<or> n = 186
         \<or> (188 \<le> n \<and> n \<le> 190) \<or> (192 \<le> n \<and> n \<noteq> 215 \<and> n \<noteq> 247))"

text \<open>
  The regular expressions of the three pattern tables use literals, \<open>\b\<close>,
  concatenation, groups of alternatives, and the greedy repetitions \<open>\w*\<close> and \<open>.+\<close>
  of a single character class.
\<close>

datatype cclass = Dot | WordC

datatype regex =
    Lit string
  | Bnd
  | Seq "regex list"
  | Alts "regex list"
  | Star cclass
  | Plus cclass

text \<open>
  A cursor is a place in the text: the character before it (if any) and the text from
  it on.
\<close>

type_synonym cursor = "char option \<times> string"

fun cmatch :: "cclass \<Rightarrow> char \<Rightarrow> bool" where
  "cmatch Dot c = (c \<noteq> CHR 0x0A)"
| "cmatch WordC c = is_word_chr c"

definition is_w :: "char option \<Rightarrow> bool" where
  "is_w p = (case p of None \<Rightarrow> False | Some c \<Rightarrow> is_word_chr c)"

fun next_chr :: "string \<Rightarrow> char option" where
  "next_chr [] = None"
| "next_chr (c # cs) = Some c"

text \<open>With \<open>re.IGNORECASE\<close> (\<open>ic\<close>) a literal character matches up to case.\<close>

definition chr_eq :: "bool \<Rightarrow> char \<Rightarrow> char \<Rightarrow> bool" where
  "chr_eq ic a c = (if ic then lower_chr c = lower_chr a else c = a)"

fun lit_ends :: "bool \<Rightarrow> string \<Rightarrow> cursor \<Rightarrow> cursor list" where
  "lit_ends ic [] cur = [cur]"
| "lit_ends ic (a # w) (p, []) = []"
| "lit_ends ic (a # w) (p, c # cs) =
     (if chr_eq ic a c then lit_ends ic w (Some c, cs) else [])"

text \<open>Greedy repetition: the longest run first, then one character less at a time.\<close>

fun star_ends :: "cclass \<Rightarrow> cursor \<Rightarrow> cursor list" where
  "star_ends cc (p, []) = [(p, [])]"
| "star_ends cc (p, c # cs) =
     (if cmatch cc c then star_ends cc (Some c, cs) @ [(p, c # cs)] else [(p, c # cs)])"

fun plus_ends :: "cclass \<Rightarrow> cursor \<Rightarrow> cursor list" where
  "plus_ends cc (p, []) = []"
| "plus_ends cc (p, c # cs) = (if cmatch cc c then star_ends cc (Some c, cs) else [])"

text \<open>
  \<open>ends ic r cur\<close> lists the cursors at which a match of \<open>r\<close> that starts at \<open>cur\<close>
  can end, in the order in which the backtracking matcher tries them: alternatives
  from left to right, greedy repetitions from the longest. The match the engine
  reports is the first one.
\<close>

fun ends :: "bool \<Rightarrow> regex \<Rightarrow> cursor \<Rightarrow> cursor list" where
  "ends ic (Lit w) cur = lit_ends ic w cur"
| "ends ic Bnd (p, cs) = (if is_w p \<noteq> is_w (next_chr cs) then [(p, cs)] else [])"
| "ends ic (Seq []) cur = [cur]"
| "ends ic (Seq (r # rs)) cur = concat (map (\<lambda>c. ends ic (Seq rs) c) (ends ic r cur))"
| "ends ic (Alts rs) cur = concat (map (\<lambda>r. ends ic r cur) rs)"
| "ends ic (Star cc) cur = star_ends cc cur"
| "ends ic (Plus cc) cur = plus_ends cc cur"

text \<open>
  \<open>re.finditer\<close>: scan from the left; at each place take the first match, record its
  start offset and its text, and go on after it; where nothing matches, move one
  character on. (A match of the empty string is recorded and the scan moves one
  character on; no pattern of this program matches the empty string.)
\<close>

function scan :: "bool \<Rightarrow> regex \<Rightarrow> nat \<Rightarrow> cursor \<Rightarrow> (nat \<times> string) list" where
  "scan ic r i (p, cs) =
     (case ends ic r (p, cs) of
        [] \<Rightarrow> (case cs of [] \<Rightarrow> [] | c # t \<Rightarrow> scan ic r (Suc i) (Some c, t))
      | (p', cs') # _ \<Rightarrow>
          (if length cs' < length cs
           then (i, take (length cs - length cs') cs)
                  # scan ic r (i + (length cs - length cs')) (p', cs')
           else (i, []) # (case cs of [] \<Rightarrow> [] | c # t \<Rightarrow> scan ic r (Suc i) (Some c, t))))"
  by pat_completeness auto
termination
  by (relation "measure (\<lambda>(ic, r, i, cur). length (snd cur))") auto

declare scan.simps [simp del]

definition finditer :: "bool \<Rightarrow> regex \<Rightarrow> string \<Rightarrow> (nat \<times> string) list" where
  "finditer ic r text = scan ic r 0 (None, text)"

text \<open>\<open>len(re.findall(pattern, text))\<close>: one entry per match.\<close>

definition findall_len :: "bool \<Rightarrow> regex \<Rightarrow> string \<Rightarrow> nat" where
  "findall_len ic r text = length (finditer ic r text)"


section \<open>Value extractor (\<open>value_extractor.py\<close>)\<close>

text \<open>
  Python dictionaries keep their keys in insertion order; a dictionary whose order
  matters is an association list with distinct keys.
\<close>

definition value_keywords :: "(string \<times> string list) list" where
  "value_keywords =
     [(''justice_and_fairness'',
         [''justice'', ''fair'', ''fairness'', ''equal'', ''equality'', ''rights'',
          ''deserve'', ''ought'', ''should'', ''moral'', ''ethical'', ''unjust'']),
      (''health_and_wellbeing'',
         [''health'', ''wellbeing'', ''wellness'', ''care'', ''medical'', ''hospital'',
          ''patient'', ''illness'', ''disease'', ''treatment'', ''safety'']),
      (''economic_security'',
         [''job'', ''employment'', ''economy'', ''economic'', ''business'', ''income'',
          ''financial'', ''money'', ''wage'', ''salary'', ''afford'', ''cost'']),
      (''family_protection'',
         [''family'', ''children'', ''kids'', ''parents'', ''home'', ''household'',
          ''father'', ''mother'', ''son'', ''daughter'', ''protect'']),
      (''community_wellbeing'',
         [''community'', ''society'', ''neighbor'', ''local'', ''town'', ''city'',
          ''people'', ''citizens'', ''public'', ''collective'']),
      (''progress_and_innovation'',
         [''innovation'', ''progress'', ''technology'', ''future'', ''advance'',
          ''develop'', ''improve'', ''growth'', ''modern'', ''new'']),
      (''freedom_and_autonomy'',
         [''freedom'', ''liberty'', ''choice'', ''autonomy'', ''independent'',
          ''free'', ''choose'', ''decide'', ''control''])]"

text \<open>
  \<open>r'\b' + re.escape(keyword) + r'\w*\b'\<close>; the keywords are letters only, which
  \<open>re.escape\<close> leaves as they are.
\<close>

definition keyword_pattern :: "string \<Rightarrow> regex" where
  "keyword_pattern keyword = Seq [Bnd, Lit keyword, Star WordC, Bnd]"

text \<open>The inner loop \<open>scores[value] += len(matches)\<close>, started at 0.\<close>

definition count_matches :: "bool \<Rightarrow> regex list \<Rightarrow> string \<Rightarrow> nat" where
  "count_matches ic patterns text_lower =
     fold (\<lambda>pattern acc. acc + findall_len ic pattern text_lower) patterns 0"

record value_result =
  top_values :: "string list"
  value_scores :: "(string \<times> nat) list"

text \<open>
  \<open>sorted(..., key=lambda x: x[1], reverse=True)\<close> is a stable sort into descending
  order of the key: \<open>sort_key\<close> is a stable insertion sort into ascending order, here
  of the negated score.
\<close>

definition extract_values :: "string \<Rightarrow> value_result" where
  "extract_values text =
     (let text_lower = lower text;
          scores = map (\<lambda>(v, keywords).
                     (v, count_matches False (map keyword_pattern keywords) text_lower))
                   value_keywords;
          sorted_values = sort_key (\<lambda>(v, s). - int s) scores
      in \<lparr> top_values = take 5 (map fst (filter (\<lambda>(v, s). s > 0) sorted_values)),
           value_scores = scores \<rparr>)"

section \<open>Pramana classifier (\<open>pramana_classifier.py\<close>)\<close>

definition pramana_patterns :: "(string \<times> regex list) list" where
  "pramana_patterns =
     [(''pratyaksha'',
         [Seq [Bnd, Lit ''I '', Alts [Lit ''see'', Lit ''saw'', Lit ''witness'',
                 Lit ''observe'', Lit ''watch'', Lit ''experience''], Bnd],
          Seq [Bnd, Lit ''I have '', Alts [Lit ''seen'', Lit ''witnessed'',
                 Lit ''observed'', Lit ''experienced''], Bnd],
          Seq [Bnd, Lit ''in my experience'', Bnd],
          Seq [Bnd, Lit ''firsthand'', Bnd],
          Seq [Bnd, Lit ''I was there'', Bnd],
          Seq [Bnd, Lit ''with my own eyes'', Bnd]]),
      (''anumana'',
         [Seq [Bnd, Lit ''therefore'', Bnd],
          Seq [Bnd, Lit ''thus'', Bnd],
          Seq [Bnd, Lit ''hence'', Bnd],
          Seq [Bnd, Lit ''consequently'', Bnd],
          Seq [Bnd, Lit ''it follows that'', Bnd],
          Seq [Bnd, Lit ''we can infer'', Bnd],
          Seq [Bnd, Lit ''this implies'', Bnd],
          Seq [Bnd, Lit ''if '', Plus Dot, Lit '' then'', Bnd],
          Seq [Bnd, Lit ''because '', Plus Dot, Lit '' must'', Bnd]]),
      (''sabda'',
         [Seq [Bnd, Lit ''studies show'', Bnd],
          Seq [Bnd, Lit ''research '', Alts [Lit ''shows'', Lit ''indicates'',
                 Lit ''proves''], Bnd],
          Seq [Bnd, Lit ''experts say'', Bnd],
          Seq [Bnd, Lit ''according to'', Bnd],
          Seq [Bnd, Lit ''data '', Alts [Lit ''shows'', Lit ''indicates''], Bnd],
          Seq [Bnd, Lit ''evidence suggests'', Bnd],
          Seq [Bnd, Lit ''scientists '', Alts [Lit ''agree'', Lit ''found''], Bnd],
          Seq [Bnd, Lit ''the literature'', Bnd]]),
      (''upamana'',
         [Seq [Bnd, Lit ''like'', Bnd],
          Seq [Bnd, Lit ''similar to'', Bnd],
          Seq [Bnd, Lit ''just as'', Bnd],
          Seq [Bnd, Lit ''analogous to'', Bnd],
          Seq [Bnd, Lit ''compare to'', Bnd],
          Seq [Bnd, Lit ''resembles'', Bnd],
          Seq [Bnd, Lit ''in the same way'', Bnd]])]"

datatype py_error = KeyError string | ValueError

text \<open>
  \<open>max(scores, key=scores.get)\<close>: the first key, in the dictionary's order, whose
  score no later key exceeds; \<open>max\<close> of nothing raises \<open>ValueError\<close>.
\<close>

fun max_from :: "'k \<times> nat \<Rightarrow> ('k \<times> nat) list \<Rightarrow> 'k" where
  "max_from (bk, bv) [] = bk"
| "max_from (bk, bv) ((k, v) # kvs) =
     (if bv < v then max_from (k, v) kvs else max_from (bk, bv) kvs)"

fun max_key :: "('k \<times> nat) list \<Rightarrow> py_error + 'k" where
  "max_key [] = Inl ValueError"
| "max_key (kv # kvs) = Inr (max_from kv kvs)"

text \<open>\<open>d[k]\<close> raises \<open>KeyError\<close> on a missing key.\<close>

definition getitem :: "(string \<times> 'v) list \<Rightarrow> string \<Rightarrow> py_error + 'v" where
  "getitem d k = (case map_of d k of None \<Rightarrow> Inl (KeyError k) | Some v \<Rightarrow> Inr v)"

record pramana_result =
  dominant_pramana :: string
  scores :: "(string \<times> nat) list"
  confidence :: rat

definition pramana_scores :: "string \<Rightarrow> (string \<times> nat) list" where
  "pramana_scores text =
     map (\<lambda>(pramana, patterns). (pramana, count_matches True patterns (lower text)))
       pramana_patterns"

definition find_dominant :: "(string \<times> nat) list \<Rightarrow> py_error + string" where
  "find_dominant sc =
     (if sum_list (map snd sc) = 0 then Inr ''pratyaksha'' else max_key sc)"

definition classify_pramana :: "string \<Rightarrow> py_error + pramana_result" where
  "classify_pramana text =
     (let scores = pramana_scores text
      in case find_dominant scores of
           Inl e \<Rightarrow> Inl e
         | Inr dominant \<Rightarrow>
             (case getitem scores dominant of
                Inl e \<Rightarrow> Inl e
              | Inr sd \<Rightarrow>
                  Inr \<lparr> dominant_pramana = dominant,
                        scores = scores,
                        confidence = of_nat sd / of_nat (max (sum_list (map snd scores)) 1) \<rparr>))"

section \<open>Tarka engine (\<open>tarka_engine.py\<close>)\<close>

definition reasoning_patterns :: "(string \<times> regex list) list" where
  "reasoning_patterns =
     [(''premise'',
         [Seq [Bnd, Alts [Lit ''because'', Lit ''since'', Lit ''given that'', Lit ''as''],
               Bnd],
          Seq [Bnd, Lit ''the fact '', Alts [Lit ''that'', Lit ''is''], Bnd]]),
      (''inference'',
         [Seq [Bnd, Alts [Lit ''therefore'', Lit ''thus'', Lit ''hence'',
                 Lit ''consequently''], Bnd],
          Seq [Bnd, Lit ''it follows that'', Bnd],
          Seq [Bnd, Lit ''this '', Alts [Lit ''means'', Lit ''implies''], Bnd]]),
      (''evidence'',
         [Seq [Bnd, Alts [Lit ''studies'', Lit ''research'', Lit ''data'',
                 Lit ''evidence''], Lit '' '',
               Alts [Lit ''show'', Lit ''suggest'', Lit ''indicate''], Bnd],
          Seq [Bnd, Lit ''according to'', Bnd]]),
      (''conclusion'',
         [Seq [Bnd, Alts [Lit ''in conclusion'', Lit ''ultimately'', Lit ''finally''],
               Bnd],
          Seq [Bnd, Lit ''we '', Alts [Lit ''must'', Lit ''should'', Lit ''need to''],
               Bnd]])]"

record chain_entry =
  etype :: string
  position :: nat
  matched :: string

record reasoning_result =
  chain :: "chain_entry list"
  has_logical_structure :: bool

text \<open>The three nested loops that append one entry per match, in loop order.\<close>

definition find_elements :: "string \<Rightarrow> chain_entry list" where
  "find_elements text_lower =
     concat (map (\<lambda>(element_type, patterns).
       concat (map (\<lambda>pattern.
         map (\<lambda>(start, grp). \<lparr> etype = element_type, position = start, matched = grp \<rparr>)
           (finditer True pattern text_lower)) patterns)) reasoning_patterns)"

text \<open>\<open>chain.sort(key=lambda x: x['position'])\<close> is stable and ascending.\<close>

definition analyze_reasoning :: "string \<Rightarrow> reasoning_result" where
  "analyze_reasoning text =
     (let chain = sort_key position (find_elements (lower text))
      in \<lparr> chain = chain, has_logical_structure = (length chain > 0) \<rparr>)"


section \<open>Hidden agreement detector (\<open>hidden_agreement_detector.py\<close>)\<close>

text \<open>
  The profile of one speaker, as \<open>analyze_dialogue\<close> builds it. The detector reads it
  with \<open>.get(key, {})\<close>, so a profile may lack any of its parts (\<open>None\<close>).
\<close>

record analysis =
  a_pramana :: "pramana_result option"
  a_values :: "value_result option"
  a_reasoning :: "reasoning_result option"
  a_text :: "string option"

record agreement =
  person_a :: string
  person_b :: string
  shared_values :: "string list"
  agreement_strength :: rat
  pramana_similarity :: rat
  reasoning_compatibility :: rat
  dialogue_insight :: string

text \<open>
  Python iterates a set of strings in an order that depends on the strings' hashes,
  which change from one interpreter process to the next, and on how the set object was
  built. The order of an iteration is a parameter of the model: a rank \<open>h\<close> of the
  strings, the set being iterated by ascending rank (strings of equal rank
  alphabetically). Every order of a finite set is that of some rank.
\<close>

type_synonym rank = "string \<Rightarrow> nat"

definition set_iter :: "rank \<Rightarrow> string set \<Rightarrow> string list" where
  "set_iter h S = sort_key h (sorted_list_of_set S)"

text \<open>
  One call of \<open>_find_shared_values\<close> iterates three set objects, \<open>values_a\<close>,
  \<open>values_b\<close> and \<open>values_a & values_b\<close>; each has an order of its own.
\<close>

record pair_orders =
  order_a :: rank
  order_b :: rank
  order_shared :: rank

definition related_values :: "(string \<times> string list) list" where
  "related_values =
     [(''health_and_wellbeing'', [''family_protection'', ''community_wellbeing'']),
      (''economic_security'', [''family_protection'', ''community_wellbeing'']),
      (''justice_and_fairness'', [''human_dignity'', ''equality'']),
      (''community_wellbeing'', [''family_protection'', ''health_and_wellbeing'']),
      (''family_protection'', [''health_and_wellbeing'', ''economic_security''])]"

definition related_get :: "string \<Rightarrow> string list" where
  "related_get v = (case map_of related_values v of None \<Rightarrow> [] | Some vs \<Rightarrow> vs)"

definition get_top_values :: "analysis \<Rightarrow> string list" where
  "get_top_values a = (case a_values a of None \<Rightarrow> [] | Some v \<Rightarrow> top_values v)"

text \<open>The body of the two nested loops over \<open>values_a\<close> and \<open>values_b\<close>.\<close>

definition add_related :: "string \<Rightarrow> string \<Rightarrow> string list \<Rightarrow> string list" where
  "add_related val_a val_b shared =
     (if val_a \<in> set (related_get val_b) \<or> val_b \<in> set (related_get val_a)
      then (let shared1 = (if val_a \<notin> set shared then shared @ [val_a] else shared)
            in if val_b \<notin> set shared1 then shared1 @ [val_b] else shared1)
      else shared)"

definition all_shared :: "pair_orders \<Rightarrow> string set \<Rightarrow> string set \<Rightarrow> string list" where
  "all_shared os values_a values_b =
     fold (\<lambda>val_a shared.
            fold (\<lambda>val_b. add_related val_a val_b) (set_iter (order_b os) values_b) shared)
       (set_iter (order_a os) values_a) (set_iter (order_shared os) (values_a \<inter> values_b))"

definition find_shared_values :: "pair_orders \<Rightarrow> analysis \<Rightarrow> analysis \<Rightarrow> string list" where
  "find_shared_values os analysis_a analysis_b =
     take 5 (all_shared os (set (get_top_values analysis_a)) (set (get_top_values analysis_b)))"

definition get_dominant :: "string \<Rightarrow> analysis \<Rightarrow> string" where
  "get_dominant dflt a = (case a_pramana a of None \<Rightarrow> dflt | Some p \<Rightarrow> dominant_pramana p)"

definition compatible_pairs :: "string set list" where
  "compatible_pairs =
     [{''pratyaksha'', ''anumana''}, {''sabda'', ''anumana''}, {''pratyaksha'', ''sabda''}]"

definition compare_pramana :: "analysis \<Rightarrow> analysis \<Rightarrow> rat" where
  "compare_pramana analysis_a analysis_b =
     (let pramana_a = get_dominant [] analysis_a;
          pramana_b = get_dominant [] analysis_b
      in if pramana_a = [] \<or> pramana_b = [] then 0.3
         else if pramana_a = pramana_b then 0.9
         else if (\<exists>pair \<in> set compatible_pairs. {pramana_a, pramana_b} = pair) then 0.6
         else 0.3)"

definition get_chain :: "analysis \<Rightarrow> chain_entry list" where
  "get_chain a = (case a_reasoning a of None \<Rightarrow> [] | Some r \<Rightarrow> chain r)"

definition compare_reasoning :: "analysis \<Rightarrow> analysis \<Rightarrow> rat" where
  "compare_reasoning analysis_a analysis_b =
     (let has_chain_a = (length (get_chain analysis_a) > 0);
          has_chain_b = (length (get_chain analysis_b) > 0)
      in if has_chain_a \<and> has_chain_b then 0.7
         else if has_chain_a \<or> has_chain_b then 0.4
         else 0.2)"

text \<open>
  The similarities and the strength are Python floats. They are recorded here as the
  rationals that the formulas denote. The code compares a similarity (one of the
  literals 0.3, 0.6, 0.9) with 0.6 and 0.7, which is exact, and a strength with 0.1
  and 0.6; a strength that \<open>detect_agreements\<close> computes differs from both by at
  least 0.005, far more than a rounding error, so these tests come out the same on the
  rationals. Where the float itself decides, in the sort of the agreements and in the
  percentage that the report prints, the model uses the float that the code computes
  (\<open>float_strength\<close> below).
\<close>

definition calculate_agreement_strength :: "string list \<Rightarrow> rat \<Rightarrow> rat \<Rightarrow> rat" where
  "calculate_agreement_strength shared pramana_sim reasoning_compat =
     (let value_score = min (of_nat (length shared) / 3.0) 1.0
      in value_score * 0.6 + pramana_sim * 0.25 + reasoning_compat * 0.15)"

text \<open>
  IEEE 754 binary64 arithmetic: the result of an operation is the exact result rounded
  to the nearest number with 53 significant bits, a tie going to the even one.
  (\<open>to_double\<close> is that rounding for the numbers that neither overflow nor
  underflow; the code's numbers lie between 0.03 and 100.)
\<close>

definition pow2 :: "int \<Rightarrow> rat" where
  "pow2 k = (if 0 \<le> k then 2 ^ nat k else 1 / 2 ^ nat (- k))"

definition round_half_even :: "rat \<Rightarrow> int" where
  "round_half_even x =
     (let n = \<lfloor>x\<rfloor>; fr = x - of_int n
      in if fr > 1 / 2 \<or> (fr = 1 / 2 \<and> odd n) then n + 1 else n)"

text \<open>The exponent \<open>e\<close> with \<open>2 ^ e \<le> x < 2 ^ (e + 1)\<close>, for positive \<open>x\<close>.\<close>

definition binary_exponent :: "rat \<Rightarrow> int" where
  "binary_exponent x =
     (case quotient_of x of (p, q) \<Rightarrow>
        (let d = bitlen p - bitlen q in if pow2 d \<le> x then d else d - 1))"

definition to_double :: "rat \<Rightarrow> rat" where
  "to_double x =
     (if x = 0 then 0
      else (let ulp = pow2 (binary_exponent \<bar>x\<bar> - 52)
            in sgn x * of_int (round_half_even (\<bar>x\<bar> / ulp)) * ulp))"

text \<open>
  The float that \<open>_calculate_agreement_strength\<close> returns for \<open>n\<close> shared values:
  \<open>min(n / 3.0, 1.0) * 0.6 + pramana_similarity * 0.25 + reasoning_compatibility * 0.15\<close>,
  every literal and every operation rounded.
\<close>

definition float_strength :: "nat \<Rightarrow> rat \<Rightarrow> rat \<Rightarrow> rat" where
  "float_strength n pramana_sim reasoning_compat =
     (let value_score = min (to_double (of_nat n / 3)) 1
      in to_double
           (to_double (to_double (value_score * to_double 0.6)
                       + to_double (to_double pramana_sim * to_double 0.25))
            + to_double (to_double reasoning_compat * to_double 0.15)))"

definition strength_as_float :: "agreement \<Rightarrow> rat" where
  "strength_as_float a =
     float_strength (length (shared_values a)) (pramana_similarity a)
       (reasoning_compatibility a)"

definition replace_underscore :: "string \<Rightarrow> string" where
  "replace_underscore s = map (\<lambda>c. if c = CHR ''_'' then CHR '' '' else c) s"

fun join :: "'a list \<Rightarrow> 'a list list \<Rightarrow> 'a list" where
  "join sep [] = []"
| "join sep [x] = x"
| "join sep (x # y # ys) = x @ sep @ join sep (y # ys)"

definition generate_insight ::
  "string \<Rightarrow> string \<Rightarrow> string list \<Rightarrow> analysis \<Rightarrow> analysis \<Rightarrow> rat \<Rightarrow> string" where
  "generate_insight pa pb shared analysis_a analysis_b pramana_sim =
     (case shared of
        [] \<Rightarrow>
          ''While '' @ pa @ '' and '' @ pb @ '' may disagree on policy, ''
          @ ''they use similar epistemological approaches (''
          @ get_dominant ''different sources'' analysis_a @ '' and ''
          @ get_dominant ''different sources'' analysis_b @ ''). ''
          @ ''This suggests potential for productive dialogue if they can identify shared goals.''
      | first # _ \<Rightarrow>
          (let values_str =
                 (if length shared = 1 then replace_underscore first
                  else if length shared = 2 then join '' and '' (map replace_underscore shared)
                  else join '', '' (map replace_underscore (butlast shared))
                       @ '', and '' @ replace_underscore (last shared));
               pramana_a = get_dominant ''unknown'' analysis_a;
               pramana_b = get_dominant ''unknown'' analysis_b;
               pramana_insight =
                 (if pramana_sim > 0.7
                  then ''Both primarily use '' @ pramana_a @ '' (same way of knowing), ''
                       @ ''so disagreement likely stems from different interpretations or priorities, not fundamental epistemology.''
                  else pa @ '' relies on '' @ pramana_a @ '' while '' @ pb @ '' uses ''
                       @ pramana_b @ ''. ''
                       @ ''Bridging this gap could help them find common ground despite different reasoning approaches.'')
           in ''Both people value '' @ values_str @ '', but reach different conclusions. ''
              @ pramana_insight @ '' ''
              @ ''A mediator could highlight their shared concern for ''
              @ replace_underscore first @ '' ''
              @ ''to build consensus on specific action steps.''))"

text \<open>\<open>itertools.combinations(xs, 2)\<close>: the pairs of positions \<open>i < j\<close>, in order.\<close>

fun combinations2 :: "'a list \<Rightarrow> ('a \<times> 'a) list" where
  "combinations2 [] = []"
| "combinations2 (x # xs) = map (Pair x) xs @ combinations2 xs"

definition agreement_threshold :: rat where
  "agreement_threshold = 0.1"

text \<open>
  One turn of the loop over the pairs: the agreement, if the pair qualifies. Each turn
  builds its set objects anew; \<open>hs pa pb\<close> are the orders of the three sets of the
  turn for the speakers \<open>pa\<close> and \<open>pb\<close>.
\<close>

definition pair_agreement ::
  "(string \<Rightarrow> string \<Rightarrow> pair_orders) \<Rightarrow> (string \<times> analysis) \<times> (string \<times> analysis)
     \<Rightarrow> agreement list" where
  "pair_agreement hs pr =
     (case pr of ((pa, analysis_a), (pb, analysis_b)) \<Rightarrow>
        (let shared = find_shared_values (hs pa pb) analysis_a analysis_b;
             pramana_sim = compare_pramana analysis_a analysis_b;
             reasoning_compat = compare_reasoning analysis_a analysis_b;
             strength = calculate_agreement_strength shared pramana_sim reasoning_compat
         in if strength > agreement_threshold \<or> length shared > 0
            then [\<lparr> person_a = pa, person_b = pb, shared_values = shared,
                    agreement_strength = strength, pramana_similarity = pramana_sim,
                    reasoning_compatibility = reasoning_compat,
                    dialogue_insight =
                      generate_insight pa pb shared analysis_a analysis_b pramana_sim \<rparr>]
            else []))"

text \<open>
  The speakers are the keys of \<open>analyses\<close> and \<open>analyses[person]\<close> is the value stored
  with the key, so the loop runs over the pairs of the dictionary's items.
  \<open>agreements.sort(key=..., reverse=True)\<close> is stable; its key is the float.
\<close>

definition detect_agreements ::
  "(string \<Rightarrow> string \<Rightarrow> pair_orders) \<Rightarrow> (string \<times> analysis) list \<Rightarrow> agreement list" where
  "detect_agreements hs analyses =
     sort_key (\<lambda>a. - strength_as_float a)
       (concat (map (pair_agreement hs) (combinations2 analyses)))"

text \<open>\<open>str(n)\<close> of a natural number.\<close>

fun str_nat :: "nat \<Rightarrow> string" where
  "str_nat n =
     (if n < 10 then [char_of (48 + n)] else str_nat (n div 10) @ [char_of (48 + n mod 10)])"

declare str_nat.simps [simp del]

definition fallback_recommendations :: "string list" where
  "fallback_recommendations =
     [''No clear hidden agreements detected. Focus on establishing common ground.'',
      ''Try identifying shared experiences or concerns as a starting point.'',
      ''Consider using a neutral facilitator to explore potential areas of agreement.'']"

definition strongest_rec :: "agreement \<Rightarrow> string" where
  "strongest_rec strongest =
     ''Strong agreement detected between '' @ person_a strongest @ '' and ''
     @ person_b strongest @ ''. ''
     @ ''Build on their shared values: '' @ join '', '' (take 2 (shared_values strongest))
     @ ''.''"

definition shared_rec :: "string list \<Rightarrow> string" where
  "shared_rec vs =
     ''Multiple shared values detected across speakers: '' @ join '', '' (take 3 vs) @ ''. ''
     @ ''Frame discussion around these common concerns.''"

definition pramana_rec :: "nat \<Rightarrow> string" where
  "pramana_rec n =
     str_nat n @ '' speaker pair(s) use similar reasoning methods. ''
     @ ''They may disagree on conclusions but share epistemological common ground.''"

definition general_rec :: string where
  "general_rec =
     ''Multiple hidden agreements suggest this group has more common ground than apparent. ''
     @ ''Focus dialogue on shared values to find compromise solutions.''"

definition generate_dialogue_recommendations ::
  "rank \<Rightarrow> agreement list \<Rightarrow> string list" where
  "generate_dialogue_recommendations h agreements =
     (case agreements of
        [] \<Rightarrow> fallback_recommendations
      | strongest # _ \<Rightarrow>
          (let all_shared_values = fold (\<lambda>a s. s \<union> set (shared_values a)) agreements {};
               high_pramana_similarity = filter (\<lambda>a. pramana_similarity a > 0.6) agreements
           in (if agreement_strength strongest > 0.6 then [strongest_rec strongest] else [])
              @ (if card all_shared_values \<ge> 3
                 then [shared_rec (set_iter h all_shared_values)] else [])
              @ (if high_pramana_similarity \<noteq> []
                 then [pramana_rec (length high_pramana_similarity)] else [])
              @ (if length agreements > 3 then [general_rec] else [])))"

section \<open>Unified analyser (\<open>samvad_analyzer.py\<close>)\<close>

text \<open>A narrative is a dictionary; a key it lacks is \<open>None\<close>.\<close>

record narrative =
  n_speaker :: "string option"
  n_text :: "string option"
  n_position :: "string option"

record analysis_result =
  individual_analyses :: "(string \<times> analysis) list"
  hidden_agreements :: "agreement list"
  narratives :: "narrative list"

text \<open>\<open>d[k] = v\<close>: a key already there keeps its place.\<close>

fun setitem :: "('k \<times> 'v) list \<Rightarrow> 'k \<Rightarrow> 'v \<Rightarrow> ('k \<times> 'v) list" where
  "setitem [] k v = [(k, v)]"
| "setitem ((k', v') # d) k v = (if k' = k then (k, v) # d else (k', v') # setitem d k v)"

fun analyze_each ::
  "(string \<times> analysis) list \<Rightarrow> narrative list \<Rightarrow> py_error + (string \<times> analysis) list" where
  "analyze_each d [] = Inr d"
| "analyze_each d (n # ns) =
     (case n_speaker n of
        None \<Rightarrow> Inl (KeyError ''speaker'')
      | Some speaker \<Rightarrow>
          (case n_text n of
             None \<Rightarrow> Inl (KeyError ''text'')
           | Some text \<Rightarrow>
               (case classify_pramana text of
                  Inl e \<Rightarrow> Inl e
                | Inr pramana_result \<Rightarrow>
                    analyze_each
                      (setitem d speaker
                         \<lparr> a_pramana = Some pramana_result,
                           a_values = Some (extract_values text),
                           a_reasoning = Some (analyze_reasoning text),
                           a_text = Some text \<rparr>) ns)))"

definition analyze_dialogue ::
  "(string \<Rightarrow> string \<Rightarrow> pair_orders) \<Rightarrow> narrative list \<Rightarrow> py_error + analysis_result" where
  "analyze_dialogue hs ns =
     (case analyze_each [] ns of
        Inl e \<Rightarrow> Inl e
      | Inr analyses \<Rightarrow>
          Inr \<lparr> individual_analyses = analyses,
                hidden_agreements = detect_agreements hs analyses,
                narratives = ns \<rparr>)"

subsection \<open>The report\<close>














section \<open>Notions used to state the properties\<close>

text \<open>The place of a key in a list of keys (the declaration order of a table).\<close>

fun index_of :: "'a list \<Rightarrow> 'a \<Rightarrow> nat" where
  "index_of [] x = 0"
| "index_of (y # ys) x = (if x = y then 0 else Suc (index_of ys x))"

definition declaration_index :: "string \<Rightarrow> nat" where
  "declaration_index v = index_of (map fst value_keywords) v"

text \<open>The score of a value tag in a result, 0 for a tag the result does not list.\<close>

definition score_of :: "value_result \<Rightarrow> string \<Rightarrow> nat" where
  "score_of r v = (case map_of (value_scores r) v of None \<Rightarrow> 0 | Some s \<Rightarrow> s)"

text \<open>The values of a list in the order of their first occurrence.\<close>

definition first_seen :: "'a list \<Rightarrow> 'a list" where
  "first_seen xs = fold (\<lambda>x seen. if x \<in> set seen then seen else seen @ [x]) xs []"

text \<open>The two speakers of an agreement.\<close>

definition persons :: "agreement \<Rightarrow> string \<times> string" where
  "persons a = (person_a a, person_b a)"


subsection \<open>Sample dialogues\<close>

text \<open>Two set orders: alphabetical, and \<open>progress_and_innovation\<close> before the rest.\<close>

definition alphabetical :: rank where
  "alphabetical s = 0"

definition progress_first :: rank where
  "progress_first s = (if s = ''progress_and_innovation'' then 0 else 1)"

text \<open>A process in which every set is iterated by one and the same rank.\<close>

definition same_order :: "rank \<Rightarrow> string \<Rightarrow> string \<Rightarrow> pair_orders" where
  "same_order h pa pb = \<lparr> order_a = h, order_b = h, order_shared = h \<rparr>"

definition asha_short :: narrative where
  "asha_short = \<lparr> n_speaker = Some ''Asha'', n_text = Some ''health'',
                  n_position = Some ''health'' \<rparr>"

definition ravi_short :: narrative where
  "ravi_short = \<lparr> n_speaker = Some ''Ravi'', n_text = Some ''family'',
                  n_position = Some ''family'' \<rparr>"



text \<open>The profiles that \<open>analyze_dialogue\<close> builds from these four narratives.\<close>

definition asha_short_profile :: analysis where
  "asha_short_profile =
     \<lparr> a_pramana = Some \<lparr> dominant_pramana = ''pratyaksha'',
         scores = [(''pratyaksha'', 0), (''anumana'', 0), (''sabda'', 0), (''upamana'', 0)],
         confidence = 0 \<rparr>,
       a_values = Some \<lparr> top_values =
           [''health_and_wellbeing''],
         value_scores =
           [(''justice_and_fairness'', 0), (''health_and_wellbeing'', 1),
            (''economic_security'', 0), (''family_protection'', 0),
            (''community_wellbeing'', 0), (''progress_and_innovation'', 0),
            (''freedom_and_autonomy'', 0)] \<rparr>,
       a_reasoning = Some \<lparr> chain = [], has_logical_structure = False \<rparr>,
       a_text = Some ''health'' \<rparr>"

definition ravi_short_profile :: analysis where
  "ravi_short_profile =
     \<lparr> a_pramana = Some \<lparr> dominant_pramana = ''pratyaksha'',
         scores = [(''pratyaksha'', 0), (''anumana'', 0), (''sabda'', 0), (''upamana'', 0)],
         confidence = 0 \<rparr>,
       a_values = Some \<lparr> top_values =
           [''family_protection''],
         value_scores =
           [(''justice_and_fairness'', 0), (''health_and_wellbeing'', 0),
            (''economic_security'', 0), (''family_protection'', 1),
            (''community_wellbeing'', 0), (''progress_and_innovation'', 0),
            (''freedom_and_autonomy'', 0)] \<rparr>,
       a_reasoning = Some \<lparr> chain = [], has_logical_structure = False \<rparr>,
       a_text = Some ''family'' \<rparr>"

definition asha_long_profile :: analysis where
  "asha_long_profile =
     \<lparr> a_pramana = Some \<lparr> dominant_pramana = ''pratyaksha'',
         scores = [(''pratyaksha'', 0), (''anumana'', 0), (''sabda'', 0), (''upamana'', 0)],
         confidence = 0 \<rparr>,
       a_values = Some \<lparr> top_values =
           [''justice_and_fairness'',
            ''health_and_wellbeing'',
            ''economic_security'',
            ''progress_and_innovation''],
         value_scores =
           [(''justice_and_fairness'', 1), (''health_and_wellbeing'', 1),
            (''economic_security'', 1), (''family_protection'', 0),
            (''community_wellbeing'', 0), (''progress_and_innovation'', 1),
            (''freedom_and_autonomy'', 0)] \<rparr>,
       a_reasoning = Some \<lparr> chain = [], has_logical_structure = False \<rparr>,
       a_text = Some ''fair new care job'' \<rparr>"

definition ravi_long_profile :: analysis where
  "ravi_long_profile =
     \<lparr> a_pramana = Some \<lparr> dominant_pramana = ''pratyaksha'',
         scores = [(''pratyaksha'', 0), (''anumana'', 0), (''sabda'', 0), (''upamana'', 0)],
         confidence = 0 \<rparr>,
       a_values = Some \<lparr> top_values =
           [''justice_and_fairness'',
            ''family_protection'',
            ''community_wellbeing'',
            ''progress_and_innovation''],
         value_scores =
           [(''justice_and_fairness'', 1), (''health_and_wellbeing'', 0),
            (''economic_security'', 0), (''family_protection'', 1),
            (''community_wellbeing'', 1), (''progress_and_innovation'', 1),
            (''freedom_and_autonomy'', 0)] \<rparr>,
       a_reasoning = Some \<lparr> chain = [], has_logical_structure = False \<rparr>,
       a_text = Some ''fair new kids town'' \<rparr>"

text \<open>An agreement list of one pair, as \<open>detect_agreements\<close> returns it for two
  speakers who both default to \<open>pratyaksha\<close> and share no value.\<close>

definition one_pair :: "agreement list" where
  "one_pair =
     [\<lparr> person_a = ''Asha'', person_b = ''Ravi'', shared_values = [],
         agreement_strength = 255 / 1000, pramana_similarity = 9 / 10,
         reasoning_compatibility = 2 / 10,
         dialogue_insight =
           ''While Asha and Ravi may disagree on policy, ''
           @ ''they use similar epistemological approaches (pratyaksha and pratyaksha). ''
           @ ''This suggests potential for productive dialogue if they can identify shared goals.'' \<rparr>]"

section \<open>Character tests by bits\<close>

text \<open>
  The character tests above compare code points. For evaluating the analysers on a
  concrete text the same tests are given on the eight bits of a character, which
  saves the arithmetic.
\<close>

lemma is_word_chr_bits [code]:
  "is_word_chr (Char b0 b1 b2 b3 b4 b5 b6 b7) = (if b7 then (if b6 then (if b5 then (\<not> b4 \<or> (b3 \<or> (\<not> b2 \<or> (\<not> b1 \<or> \<not> b0)))) else (\<not> b4 \<or> (b3 \<or> (\<not> b2 \<or> (\<not> b1 \<or> \<not> b0))))) else (b5 \<and> (if b4 then (if b3 then (if b2 then (\<not> b1 \<or> \<not> b0) else (if b1 then \<not> b0 else b0)) else (if b2 then (\<not> b1 \<and> b0) else b1)) else (b3 \<and> (\<not> b2 \<and> (b1 \<and> \<not> b0)))))) else (if b6 then (if b5 then (if b4 then (\<not> b3 \<or> (\<not> b2 \<and> (\<not> b1 \<or> \<not> b0))) else (b3 \<or> (b2 \<or> (b1 \<or> b0)))) else (if b4 then (\<not> b3 \<or> (if b2 then (b1 \<and> b0) else (\<not> b1 \<or> \<not> b0))) else (b3 \<or> (b2 \<or> (b1 \<or> b0))))) else (b5 \<and> (b4 \<and> (\<not> b3 \<or> (\<not> b2 \<and> \<not> b1))))))"
  by (cases b0; cases b1; cases b2; cases b3; cases b4; cases b5; cases b6; cases b7)
     (simp_all add: is_word_chr_def)

lemma is_upper_chr_bits [code]:
  "is_upper_chr (Char b0 b1 b2 b3 b4 b5 b6 b7) = (if b7 then (b6 \<and> (\<not> b5 \<and> (\<not> b4 \<or> (if b3 then (\<not> b2 \<or> (\<not> b1 \<or> \<not> b0)) else (\<not> b2 \<or> (\<not> b1 \<or> \<not> b0)))))) else (b6 \<and> (\<not> b5 \<and> (if b4 then (\<not> b3 \<or> (\<not> b2 \<and> (\<not> b1 \<or> \<not> b0))) else (b3 \<or> (b2 \<or> (b1 \<or> b0)))))))"
  by (cases b0; cases b1; cases b2; cases b3; cases b4; cases b5; cases b6; cases b7)
     (simp_all add: is_upper_chr_def)

lemma lower_chr_bits [code]:
  "lower_chr (Char b0 b1 b2 b3 b4 b5 b6 b7) =
     (if is_upper_chr (Char b0 b1 b2 b3 b4 b5 b6 b7) then Char b0 b1 b2 b3 b4 True b6 b7
      else Char b0 b1 b2 b3 b4 b5 b6 b7)"
  by (cases b0; cases b1; cases b2; cases b3; cases b4; cases b5; cases b6; cases b7)
     (simp_all add: lower_chr_def is_upper_chr_def char_of_def bit_Suc_0_iff)

section \<open>Properties of the pramana classifier\<close>

lemma max_from_mem: "max_from kv kvs \<in> fst ` set (kv # kvs)"
  by (induction kv kvs rule: max_from.induct) auto

lemma pramana_scores_keys:
  "map fst (pramana_scores t) = [''pratyaksha'', ''anumana'', ''sabda'', ''upamana'']"
  by (simp add: pramana_scores_def pramana_patterns_def)

lemma getitem_mem:
  "k \<in> fst ` set d \<Longrightarrow> \<exists>v. getitem d k = Inr v \<and> map_of d k = Some v"
  by (cases "map_of d k") (auto simp: getitem_def map_of_eq_None_iff)

lemma max_key_mem: "d \<noteq> [] \<Longrightarrow> \<exists>k. max_key d = Inr k \<and> k \<in> fst ` set d"
proof -
  assume "d \<noteq> []"
  then obtain kv kvs where d: "d = kv # kvs" by (cases d) auto
  show ?thesis unfolding d using max_from_mem[of kv kvs] by simp
qed

lemma find_dominant_zero:
  "sum_list (map snd sc) = 0 \<Longrightarrow> find_dominant sc = Inr ''pratyaksha''"
  unfolding find_dominant_def by (rule if_P)

lemma find_dominant_pos:
  "sum_list (map snd sc) \<noteq> 0 \<Longrightarrow> find_dominant sc = max_key sc"
  unfolding find_dominant_def by (rule if_not_P)

lemma dominant_is_key:
  "\<exists>d. find_dominant (pramana_scores t) = Inr d \<and> d \<in> fst ` set (pramana_scores t)"
proof -
  have ks: "fst ` set (pramana_scores t) = set [''pratyaksha'', ''anumana'', ''sabda'', ''upamana'']"
    using pramana_scores_keys[of t] by (metis set_map)
  have ne: "pramana_scores t \<noteq> []"
    using pramana_scores_keys[of t] by auto
  show ?thesis
  proof (cases "sum_list (map snd (pramana_scores t)) = 0")
    case True
    have "''pratyaksha'' \<in> fst ` set (pramana_scores t)" unfolding ks by simp
    with find_dominant_zero[OF True] show ?thesis by blast
  next
    case False
    from max_key_mem[OF ne] find_dominant_pos[OF False] show ?thesis by metis
  qed
qed

lemma classify_cases:
  "\<exists>d sd. find_dominant (pramana_scores t) = Inr d
     \<and> map_of (pramana_scores t) d = Some sd
     \<and> classify_pramana t = Inr \<lparr> dominant_pramana = d, scores = pramana_scores t,
           confidence = of_nat sd / of_nat (max (sum_list (map snd (pramana_scores t))) 1) \<rparr>"
proof -
  obtain d where d: "find_dominant (pramana_scores t) = Inr d" "d \<in> fst ` set (pramana_scores t)"
    using dominant_is_key by blast
  from getitem_mem[OF d(2)] obtain sd where
    sd: "getitem (pramana_scores t) d = Inr sd" "map_of (pramana_scores t) d = Some sd"
    by blast
  have "classify_pramana t = Inr \<lparr> dominant_pramana = d, scores = pramana_scores t,
           confidence = of_nat sd / of_nat (max (sum_list (map snd (pramana_scores t))) 1) \<rparr>"
    by (simp add: classify_pramana_def Let_def d(1) sd(1))
  then show ?thesis using d sd by blast
qed

text \<open>
  Claim C7. For every text, \<open>classify_pramana\<close> returns a result whose confidence is
  the dominant category's score divided by \<open>max(sum of the scores, 1)\<close>; when all
  scores are zero the dominant category is \<open>pratyaksha\<close> and the confidence is 0.
\<close>

theorem classify_pramana_confidence:
  "\<exists>r sd. classify_pramana t = Inr r
      \<and> map_of (scores r) (dominant_pramana r) = Some sd
      \<and> confidence r = of_nat sd / of_nat (max (sum_list (map snd (scores r))) 1)
      \<and> (sum_list (map snd (scores r)) = 0 \<longrightarrow>
            dominant_pramana r = ''pratyaksha'' \<and> confidence r = 0)"
proof -
  obtain d sd where
    d: "find_dominant (pramana_scores t) = Inr d"
    and sd: "map_of (pramana_scores t) d = Some sd"
    and c: "classify_pramana t = Inr \<lparr> dominant_pramana = d, scores = pramana_scores t,
           confidence = of_nat sd / of_nat (max (sum_list (map snd (pramana_scores t))) 1) \<rparr>"
    using classify_cases by blast
  have z: "d = ''pratyaksha'' \<and> sd = 0" if z0: "sum_list (map snd (pramana_scores t)) = 0"
  proof -
    from d find_dominant_zero[OF z0] have "d = ''pratyaksha''" by simp
    moreover have "(d, sd) \<in> set (pramana_scores t)" using sd by (rule map_of_SomeD)
    moreover have "\<forall>n\<in>set (pramana_scores t). snd n = 0" using z0 by simp
    ultimately show ?thesis by force
  qed
  show ?thesis using c sd z by auto
qed

text \<open>The zero-score case at the text \<open>I agree\<close>, which matches no pattern.\<close>

theorem classify_pramana_confidence_witness:
  "\<exists>r. classify_pramana ''I agree'' = Inr r \<and> sum_list (map snd (scores r)) = 0
       \<and> dominant_pramana r = ''pratyaksha'' \<and> confidence r = 0"
proof -
  from classify_pramana_confidence[of "''I agree''"] obtain r sd where
    a: "classify_pramana ''I agree'' = Inr r
      \<and> map_of (scores r) (dominant_pramana r) = Some sd
      \<and> confidence r = of_nat sd / of_nat (max (sum_list (map snd (scores r))) 1)
      \<and> (sum_list (map snd (scores r)) = 0 \<longrightarrow>
            dominant_pramana r = ''pratyaksha'' \<and> confidence r = 0)"
    by (elim exE)
  from a have r: "classify_pramana ''I agree'' = Inr r" by (rule conjunct1)
  from a have z: "sum_list (map snd (scores r)) = 0 \<longrightarrow>
              dominant_pramana r = ''pratyaksha'' \<and> confidence r = 0"
    by (elim conjE)
  have e: "pramana_scores ''I agree'' =
             [(''pratyaksha'', 0), (''anumana'', 0), (''sabda'', 0), (''upamana'', 0)]"
    by code_simp
  from classify_cases[of "''I agree''"] r have "scores r = pramana_scores ''I agree''"
    by auto
  with e have "sum_list (map snd (scores r)) = 0" by simp
  with z have "dominant_pramana r = ''pratyaksha'' \<and> confidence r = 0" by (rule mp)
  with r \<open>sum_list (map snd (scores r)) = 0\<close> show ?thesis by (intro exI conjI) (elim conjE, assumption)+
qed



section \<open>Properties of the value extractor\<close>

lemma insort_key_tie:
  fixes g :: "'a \<Rightarrow> nat" and f :: "'a \<Rightarrow> int"
  assumes "sorted_wrt (\<lambda>a b. f a < f b \<or> (f a = f b \<and> g a < g b)) ys"
    and "\<forall>y\<in>set ys. g x < g y"
  shows "sorted_wrt (\<lambda>a b. f a < f b \<or> (f a = f b \<and> g a < g b)) (insort_key f x ys)"
  using assms
proof (induction ys)
  case Nil
  then show ?case by simp
next
  case (Cons y ys)
  show ?case
  proof (cases "f x \<le> f y")
    case True
    have "\<forall>z\<in>set ys. f y \<le> f z" using Cons.prems(1) by auto
    with True Cons.prems show ?thesis by auto
  next
    case False
    have ih: "sorted_wrt (\<lambda>a b. f a < f b \<or> (f a = f b \<and> g a < g b)) (insort_key f x ys)"
      using Cons.IH Cons.prems by simp
    from False Cons.prems(1) ih show ?thesis by (auto simp: set_insort_key)
  qed
qed

lemma sort_key_tie:
  fixes g :: "'a \<Rightarrow> nat" and f :: "'a \<Rightarrow> int"
  assumes "sorted_wrt (\<lambda>a b. g a < g b) xs"
  shows "sorted_wrt (\<lambda>a b. f a < f b \<or> (f a = f b \<and> g a < g b)) (sort_key f xs)"
  using assms
proof (induction xs)
  case Nil
  then show ?case by simp
next
  case (Cons x xs)
  have "\<forall>y\<in>set (sort_key f xs). g x < g y" using Cons.prems by simp
  moreover have "sorted_wrt (\<lambda>a b. f a < f b \<or> (f a = f b \<and> g a < g b)) (sort_key f xs)"
    using Cons by simp
  ultimately show ?case by (simp add: insort_key_tie)
qed

lemma value_keys_ordered:
  "sorted_wrt (\<lambda>a b. declaration_index a < declaration_index b) (map fst value_keywords)"
  by (simp add: declaration_index_def value_keywords_def)

lemma value_keys_distinct: "distinct (map fst value_keywords)"
  by (simp add: value_keywords_def)


lemma top_values_props:
  fixes sc :: "(string \<times> nat) list" and idx :: "string \<Rightarrow> nat"
  assumes d: "distinct (map fst sc)"
    and o: "sorted_wrt (\<lambda>a b. idx (fst a) < idx (fst b)) sc"
  defines "lk \<equiv> (\<lambda>v. case map_of sc v of None \<Rightarrow> 0 | Some s \<Rightarrow> s)"
  defines "tv \<equiv> take 5 (map fst (filter (\<lambda>(v, s). s > 0) (sort_key (\<lambda>(v, s). - int s) sc)))"
  shows "\<forall>v\<in>set tv. \<exists>s. map_of sc v = Some s \<and> 0 < s"
    and "sorted_wrt (\<lambda>v w. lk w < lk v \<or> (lk v = lk w \<and> idx v < idx w)) tv"
proof -
  let ?f = "\<lambda>(v, s). - int (s::nat)"
  let ?L = "filter (\<lambda>(v, s). s > 0) (sort_key ?f sc)"
  have look: "map_of sc (fst a) = Some (snd a)" if "a \<in> set sc" for a
    using that d by (simp add: map_of_eq_Some_iff)
  have sub: "set ?L \<subseteq> set sc" by auto
  have lkv: "lk (fst a) = snd a" if "a \<in> set ?L" for a
    using look[of a] that sub by (auto simp: lk_def)
  show "\<forall>v\<in>set tv. \<exists>s. map_of sc v = Some s \<and> 0 < s"
  proof
    fix v assume "v \<in> set tv"
    then have "v \<in> fst ` set ?L" unfolding tv_def by (auto dest: in_set_takeD)
    then obtain a where a: "a \<in> set ?L" "v = fst a" by blast
    then have "0 < snd a" by auto
    moreover have "map_of sc v = Some (snd a)" using a look[of a] sub by auto
    ultimately show "\<exists>s. map_of sc v = Some s \<and> 0 < s" by blast
  qed
  have "sorted_wrt (\<lambda>a b. ?f a < ?f b \<or> (?f a = ?f b \<and> idx (fst a) < idx (fst b)))
          (sort_key ?f sc)"
    by (rule sort_key_tie[where g = "\<lambda>a. idx (fst a)"]) (rule o)
  then have "sorted_wrt (\<lambda>a b. ?f a < ?f b \<or> (?f a = ?f b \<and> idx (fst a) < idx (fst b))) ?L"
    by (rule sorted_wrt_filter)
  then have "sorted_wrt (\<lambda>a b. lk (fst b) < lk (fst a)
                 \<or> (lk (fst a) = lk (fst b) \<and> idx (fst a) < idx (fst b))) ?L"
  proof (rule sorted_wrt_mono_rel[rotated])
    fix a b assume "a \<in> set ?L" "b \<in> set ?L"
      and "?f a < ?f b \<or> (?f a = ?f b \<and> idx (fst a) < idx (fst b))"
    then show "lk (fst b) < lk (fst a) \<or> (lk (fst a) = lk (fst b) \<and> idx (fst a) < idx (fst b))"
      using lkv[of a] lkv[of b] by (auto simp: case_prod_unfold)
  qed
  then have "sorted_wrt (\<lambda>v w. lk w < lk v \<or> (lk v = lk w \<and> idx v < idx w)) (map fst ?L)"
    by (simp add: sorted_wrt_map)
  then show "sorted_wrt (\<lambda>v w. lk w < lk v \<or> (lk v = lk w \<and> idx v < idx w)) tv"
    unfolding tv_def by (rule sorted_wrt_take)
qed

lemma extract_values_scores_keys:
  "map fst (value_scores (extract_values t)) = map fst value_keywords"
  by (simp add: extract_values_def Let_def case_prod_unfold comp_def)

lemma extract_values_top:
  "top_values (extract_values t) =
     take 5 (map fst (filter (\<lambda>(v, s). s > 0)
       (sort_key (\<lambda>(v, s). - int s) (value_scores (extract_values t)))))"
  by (simp add: extract_values_def Let_def)

text \<open>
  Claim C6. For every text, \<open>top_values\<close> has at most 5 entries, every entry has a
  strictly positive score, the entries are in descending order of score, and entries
  of equal score are in the declaration order of the taxonomy.
\<close>

theorem extract_values_top_values:
  "length (top_values (extract_values t)) \<le> 5
   \<and> (\<forall>v\<in>set (top_values (extract_values t)).
         \<exists>s. getitem (value_scores (extract_values t)) v = Inr s \<and> 0 < s)
   \<and> sorted_wrt (\<lambda>v w. score_of (extract_values t) w \<le> score_of (extract_values t) v)
        (top_values (extract_values t))
   \<and> sorted_wrt (\<lambda>v w. score_of (extract_values t) v = score_of (extract_values t) w
                        \<longrightarrow> declaration_index v < declaration_index w)
        (top_values (extract_values t))"
proof -
  let ?r = "extract_values t"
  have d: "distinct (map fst (value_scores ?r))"
    by (simp only: extract_values_scores_keys value_keys_distinct)
  have o: "sorted_wrt (\<lambda>a b. declaration_index (fst a) < declaration_index (fst b))
             (value_scores ?r)"
    using value_keys_ordered
    by (simp only: sorted_wrt_map extract_values_scores_keys[of t, symmetric])
  have len: "length (top_values ?r) \<le> 5"
    by (simp add: extract_values_top)
  have pos: "\<forall>v\<in>set (top_values ?r). \<exists>s. getitem (value_scores ?r) v = Inr s \<and> 0 < s"
    using top_values_props(1)[OF d o] unfolding extract_values_top[symmetric]
    by (auto simp: getitem_def)
  have both: "sorted_wrt (\<lambda>v w. score_of ?r w < score_of ?r v
                 \<or> (score_of ?r v = score_of ?r w \<and> declaration_index v < declaration_index w))
               (top_values ?r)"
    using top_values_props(2)[OF d o]
    unfolding extract_values_top[symmetric] score_of_def .
  have desc: "sorted_wrt (\<lambda>v w. score_of ?r w \<le> score_of ?r v) (top_values ?r)"
    by (rule sorted_wrt_mono_rel[OF _ both]) auto
  have ties: "sorted_wrt (\<lambda>v w. score_of ?r v = score_of ?r w
                 \<longrightarrow> declaration_index v < declaration_index w) (top_values ?r)"
    by (rule sorted_wrt_mono_rel[OF _ both]) auto
  from len pos desc ties show ?thesis by (intro conjI)
qed

lemma extract_values_example:
  "extract_values ''care care job fair'' =
     \<lparr> top_values = [''health_and_wellbeing'', ''justice_and_fairness'', ''economic_security''],
       value_scores = [(''justice_and_fairness'', 1), (''health_and_wellbeing'', 2),
         (''economic_security'', 1), (''family_protection'', 0), (''community_wellbeing'', 0),
         (''progress_and_innovation'', 0), (''freedom_and_autonomy'', 0)] \<rparr>"
  by code_simp


text \<open>
  At the text \<open>care care job fair\<close> the two tags of score 1 come in declaration
  order, after the tag of score 2.
\<close>

theorem extract_values_top_values_witness:
  "top_values (extract_values ''care care job fair'') =
     [''health_and_wellbeing'', ''justice_and_fairness'', ''economic_security'']
   \<and> length (top_values (extract_values ''care care job fair'')) \<le> 5
   \<and> getitem (value_scores (extract_values ''care care job fair'')) ''health_and_wellbeing'' = Inr 2
   \<and> getitem (value_scores (extract_values ''care care job fair'')) ''justice_and_fairness'' = Inr 1
   \<and> getitem (value_scores (extract_values ''care care job fair'')) ''economic_security'' = Inr 1
   \<and> declaration_index ''justice_and_fairness'' < declaration_index ''economic_security''"
  using extract_values_top_values[of "''care care job fair''"]
  unfolding extract_values_example
  by (simp add: getitem_def score_of_def declaration_index_def value_keywords_def)


lemma fairness_scores:
  "value_scores (extract_values ''fairness'') =
     [(''justice_and_fairness'', 2), (''health_and_wellbeing'', 0), (''economic_security'', 0),
      (''family_protection'', 0), (''community_wellbeing'', 0), (''progress_and_innovation'', 0),
      (''freedom_and_autonomy'', 0)]"
  by code_simp

lemma fairness_fair: "finditer False (keyword_pattern ''fair'') (lower ''fairness'') = [(0, ''fairness'')]"
  by code_simp

lemma fairness_fairness: "finditer False (keyword_pattern ''fairness'') (lower ''fairness'') = [(0, ''fairness'')]"
  by code_simp

text \<open>
  Claim C10. In the one-word text \<open>fairness\<close> the keywords \<open>fair\<close> and \<open>fairness\<close>
  of the tag \<open>justice_and_fairness\<close> both match the one word (the same span, from
  offset 0), and the tag's score is 2.
\<close>

theorem fairness_counted_twice:
  "finditer False (keyword_pattern ''fair'') (lower ''fairness'') = [(0, ''fairness'')]
   \<and> finditer False (keyword_pattern ''fairness'') (lower ''fairness'') = [(0, ''fairness'')]
   \<and> getitem (value_scores (extract_values ''fairness'')) ''justice_and_fairness'' = Inr 2"
  by (simp only: fairness_fair fairness_fairness fairness_scores) (simp add: getitem_def)


section \<open>Properties of the tarka engine\<close>

text \<open>
  Claim C8. For every text, the positions along the chain never decrease, and
  \<open>has_logical_structure\<close> holds exactly when the chain is not empty.
\<close>

theorem analyze_reasoning_chain_sorted:
  "sorted (map position (chain (analyze_reasoning t)))
   \<and> (has_logical_structure (analyze_reasoning t) \<longleftrightarrow> chain (analyze_reasoning t) \<noteq> [])"
  by (simp add: analyze_reasoning_def Let_def)


section \<open>The scenario \<open>Studies show exercise helps. Therefore we should act.\<close>\<close>

lemma scenario_scores:
  "pramana_scores ''Studies show exercise helps. Therefore we should act.'' =
     [(''pratyaksha'', 0), (''anumana'', 1), (''sabda'', 1), (''upamana'', 0)]"
  by code_simp

lemma scenario_chain:
  "analyze_reasoning ''Studies show exercise helps. Therefore we should act.'' =
     \<lparr> chain = [\<lparr> etype = ''evidence'', position = 0, matched = ''studies show'' \<rparr>,
                 \<lparr> etype = ''inference'', position = 29, matched = ''therefore'' \<rparr>,
                 \<lparr> etype = ''conclusion'', position = 39, matched = ''we should'' \<rparr>],
       has_logical_structure = True \<rparr>"
  by code_simp

lemma scenario_classify:
  "classify_pramana ''Studies show exercise helps. Therefore we should act.'' =
     Inr \<lparr> dominant_pramana = ''anumana'',
           scores = [(''pratyaksha'', 0), (''anumana'', 1), (''sabda'', 1), (''upamana'', 0)],
           confidence = 1 / 2 \<rparr>"
  by (simp add: classify_pramana_def scenario_scores find_dominant_def getitem_def)


text \<open>
  Claim C2, as stated, fails: the text scores 1 for \<open>anumana\<close> (\<open>therefore\<close>) and 1
  for \<open>sabda\<close> (\<open>studies show\<close>), and \<open>max\<close> keeps the first of the tied keys, so
  the dominant source is \<open>anumana\<close>, not \<open>sabda\<close>.
\<close>

theorem scenario_dominant_not_sabda:
  "classify_pramana ''Studies show exercise helps. Therefore we should act.'' =
     Inr \<lparr> dominant_pramana = ''anumana'',
           scores = [(''pratyaksha'', 0), (''anumana'', 1), (''sabda'', 1), (''upamana'', 0)],
           confidence = 1 / 2 \<rparr>
   \<and> dominant_pramana
        \<lparr> dominant_pramana = ''anumana'',
          scores = [(''pratyaksha'', 0), (''anumana'', 1), (''sabda'', 1), (''upamana'', 0)],
          confidence = 1 / 2 \<rparr> \<noteq> ''sabda''"
  by (simp add: scenario_classify)

text \<open>
  Claim C2, amended. For this text \<open>anumana\<close> and \<open>sabda\<close> both score 1 and the
  dominant source is \<open>anumana\<close>, the first of the two in declaration order, with
  confidence 1/2; the chain of \<open>analyze_reasoning\<close> has the evidence entry
  \<open>studies show\<close> at offset 0, before the inference entry \<open>therefore\<close> at offset 29.
\<close>

theorem scenario_tie_and_chain:
  "map_sum id dominant_pramana
       (classify_pramana ''Studies show exercise helps. Therefore we should act.'')
     = Inr ''anumana''
   \<and> map_sum id scores
       (classify_pramana ''Studies show exercise helps. Therefore we should act.'')
     = Inr [(''pratyaksha'', 0), (''anumana'', 1), (''sabda'', 1), (''upamana'', 0)]
   \<and> map_sum id confidence
       (classify_pramana ''Studies show exercise helps. Therefore we should act.'')
     = Inr (1 / 2)
   \<and> chain (analyze_reasoning ''Studies show exercise helps. Therefore we should act.'') =
       [\<lparr> etype = ''evidence'', position = 0, matched = ''studies show'' \<rparr>,
        \<lparr> etype = ''inference'', position = 29, matched = ''therefore'' \<rparr>,
        \<lparr> etype = ''conclusion'', position = 39, matched = ''we should'' \<rparr>]"
  by (simp add: scenario_classify scenario_chain)


section \<open>Properties of the agreement detector\<close>

subsection \<open>Every pair qualifies\<close>

lemma length_combinations2:
  "length (combinations2 xs) = length xs * (length xs - 1) div 2"
proof (induction xs)
  case Nil
  show ?case by simp
next
  case (Cons x xs)
  have "length xs + length xs * (length xs - 1) div 2 = (length xs + 1) * length xs div 2"
  proof (cases "length xs")
    case 0
    then show ?thesis by simp
  next
    case (Suc m)
    have "Suc m + Suc m * m div 2 = (2 * Suc m + Suc m * m) div 2" by simp
    also have "2 * Suc m + Suc m * m = (Suc m + 1) * Suc m" by simp
    finally show ?thesis using Suc by simp
  qed
  with Cons show ?case by simp
qed

lemma compare_pramana_ge: "3 / 10 \<le> compare_pramana a b"
  by (simp add: compare_pramana_def Let_def)

lemma compare_reasoning_ge: "2 / 10 \<le> compare_reasoning a b"
  by (simp add: compare_reasoning_def Let_def)

lemma strength_ge:
  assumes "3 / 10 \<le> ps" and "2 / 10 \<le> rc"
  shows "105 / 1000 \<le> calculate_agreement_strength sh ps rc"
proof -
  have "0 \<le> min (rat_of_nat (length sh) / 3) 1" by simp
  then have "0 \<le> min (rat_of_nat (length sh) / 3) 1 * (6 / 10)" by simp
  moreover have "75 / 1000 \<le> ps * (25 / 100)" using assms(1) by simp
  moreover have "30 / 1000 \<le> rc * (15 / 100)" using assms(2) by simp
  ultimately show ?thesis
    by (simp add: calculate_agreement_strength_def Let_def)
qed

lemma pair_agreement_always:
  "\<exists>x. pair_agreement h pr = [x]"
proof -
  obtain pa a pb b where pr: "pr = ((pa, a), (pb, b))" by (metis surj_pair)
  have "agreement_threshold <
          calculate_agreement_strength (find_shared_values (h pa pb) a b) (compare_pramana a b)
            (compare_reasoning a b)"
    using strength_ge[OF compare_pramana_ge[of a b] compare_reasoning_ge[of a b],
            where sh = "find_shared_values (h pa pb) a b"]
    by (simp add: agreement_threshold_def)
  then show ?thesis by (simp add: pr pair_agreement_def Let_def)
qed

lemma length_concat_singletons:
  "(\<And>x. x \<in> set xs \<Longrightarrow> length (f x) = 1) \<Longrightarrow> length (concat (map f xs)) = length xs"
  by (induction xs) auto

lemma length_detect_agreements:
  "length (detect_agreements h analyses) = length analyses * (length analyses - 1) div 2"
proof -
  have one: "length (pair_agreement h pr) = 1" for pr
    using pair_agreement_always[of h pr] by auto
  have "length (detect_agreements h analyses) = length (combinations2 analyses)"
    by (simp add: detect_agreements_def length_concat_singletons one)
  then show ?thesis by (simp only: length_combinations2)
qed

text \<open>
  Claim C5. For every dictionary of \<open>n\<close> profiles \<open>detect_agreements\<close> returns exactly
  \<open>n * (n - 1) / 2\<close> agreements: \<open>pramana_similarity\<close> is at least 0.3,
  \<open>reasoning_compatibility\<close> at least 0.2, so the strength of every pair is at least
  0.105 and exceeds the threshold 0.1.
\<close>

theorem detect_agreements_count:
  "length (detect_agreements h analyses) = length analyses * (length analyses - 1) div 2
   \<and> 0.3 \<le> compare_pramana a b
   \<and> 0.2 \<le> compare_reasoning a b
   \<and> 0.105 \<le> calculate_agreement_strength sh (compare_pramana a b) (compare_reasoning a b)
   \<and> agreement_threshold
        < calculate_agreement_strength sh (compare_pramana a b) (compare_reasoning a b)"
proof -
  have s: "105 / 1000 \<le> calculate_agreement_strength sh (compare_pramana a b) (compare_reasoning a b)"
    by (rule strength_ge[OF compare_pramana_ge compare_reasoning_ge])
  have p: "0.3 \<le> compare_pramana a b" using compare_pramana_ge[of a b] by simp
  have r: "0.2 \<le> compare_reasoning a b" using compare_reasoning_ge[of a b] by simp
  have s1: "0.105 \<le> calculate_agreement_strength sh (compare_pramana a b) (compare_reasoning a b)"
    using s by simp
  have s2: "agreement_threshold
        < calculate_agreement_strength sh (compare_pramana a b) (compare_reasoning a b)"
    using s by (simp add: agreement_threshold_def)
  from length_detect_agreements[of h analyses] p r s1 s2 show ?thesis by (intro conjI)
qed

text \<open>
  Two pairs with one shared value each, one with similarities 0.6 and 0.2, the other
  with 0.3 and 0.7, have the same strength 19/50 as rationals; the floats differ, and
  the sort puts the first pair first.
\<close>

lemma float_strength_tie:
  "float_strength 1 0.6 0.2 = 3422735716801577 / 9007199254740992"
  "float_strength 1 0.3 0.7 = 6845471433603153 / 18014398509481984"
  by code_simp+

lemma rational_strength_tie:
  "calculate_agreement_strength [v] 0.6 0.2 = calculate_agreement_strength [w] 0.3 0.7"
  by (simp add: calculate_agreement_strength_def)

lemma float_strength_tie_broken:
  "float_strength 1 0.3 0.7 < float_strength 1 0.6 0.2"
  unfolding float_strength_tie by simp

subsection \<open>Recommendations\<close>

lemma str_nat_digit:
  "str_nat n \<noteq> [] \<and> 48 \<le> (of_char (hd (str_nat n)) :: nat) \<and> (of_char (hd (str_nat n)) :: nat) \<le> 57"
proof (induction n rule: str_nat.induct)
  case (1 n)
  show ?case
  proof (cases "n < 10")
    case True
    then have "str_nat n = [char_of (48 + n)]" by (simp add: str_nat.simps)
    moreover have "(48 + n) mod 256 = 48 + n" using True by simp
    ultimately show ?thesis using True by simp
  next
    case False
    then have "str_nat n = str_nat (n div 10) @ [char_of (48 + n mod 10)]"
      by (subst str_nat.simps) simp
    with 1[OF False] show ?thesis by simp
  qed
qed

lemma hd_pramana_rec: "hd (pramana_rec n) = hd (str_nat n)"
  using str_nat_digit[of n] by (simp add: pramana_rec_def)

lemma pramana_rec_not_other:
  "pramana_rec n \<noteq> strongest_rec x" "pramana_rec n \<noteq> shared_rec vs" "pramana_rec n \<noteq> general_rec"
proof -
  have d: "(of_char (hd (pramana_rec n)) :: nat) \<le> 57"
    using str_nat_digit[of n] by (simp add: hd_pramana_rec)
  have "(of_char (hd (strongest_rec x)) :: nat) = 83" by (simp add: strongest_rec_def)
  with d show "pramana_rec n \<noteq> strongest_rec x" by auto
  have "(of_char (hd (shared_rec vs)) :: nat) = 77" by (simp add: shared_rec_def)
  with d show "pramana_rec n \<noteq> shared_rec vs" by auto
  have "(of_char (hd general_rec) :: nat) = 77" by (simp add: general_rec_def)
  with d show "pramana_rec n \<noteq> general_rec" by auto
qed

text \<open>The sample list \<open>one_pair\<close> is what the analysis of two plain texts yields.\<close>

lemma one_pair_is_detected:
  "map_sum id hidden_agreements
     (analyze_dialogue (same_order alphabetical)
        [\<lparr> n_speaker = Some ''Asha'', n_text = Some ''yes'', n_position = Some ''yes'' \<rparr>,
         \<lparr> n_speaker = Some ''Ravi'', n_text = Some ''no'', n_position = Some ''no'' \<rparr>])
   = Inr one_pair"
  by code_simp

text \<open>
  Claim C3, as stated, fails: with exactly one pair of \<open>pramana_similarity\<close> above
  0.6 (so not more than one) the recommendation on reasoning methods is issued.
\<close>

theorem recommendations_one_pair:
  "generate_dialogue_recommendations alphabetical one_pair = [pramana_rec 1]
   \<and> length (filter (\<lambda>a. pramana_similarity a > 0.6) one_pair) = 1"
  by (simp add: generate_dialogue_recommendations_def one_pair_def)

text \<open>
  Claim C3, amended. For every non-empty list of agreements the recommendation on
  reasoning methods is issued if and only if at least one pair has
  \<open>pramana_similarity\<close> above 0.6, and at most four recommendations are issued.
\<close>

theorem recommendations_pramana_iff:
  assumes "agreements \<noteq> []"
  shows "((\<exists>n. pramana_rec n \<in> set (generate_dialogue_recommendations h agreements))
            \<longleftrightarrow> (\<exists>a\<in>set agreements. pramana_similarity a > 0.6))
         \<and> length (generate_dialogue_recommendations h agreements) \<le> 4"
proof -
  from assms obtain s rest where ag: "agreements = s # rest" by (cases agreements) auto
  have nonempty: "(filter (\<lambda>a. pramana_similarity a > 0.6) agreements \<noteq> [])
      \<longleftrightarrow> (\<exists>a\<in>set agreements. pramana_similarity a > 0.6)"
    by (simp add: filter_empty_conv)
  have mem: "(\<exists>n. pramana_rec n \<in> set (generate_dialogue_recommendations h agreements))
      \<longleftrightarrow> filter (\<lambda>a. pramana_similarity a > 0.6) agreements \<noteq> []"
    unfolding ag generate_dialogue_recommendations_def Let_def
    using pramana_rec_not_other by (auto simp del: fold_simps filter.simps)
  have len: "length (generate_dialogue_recommendations h agreements) \<le> 4"
    unfolding ag generate_dialogue_recommendations_def Let_def by simp
  from nonempty mem len show ?thesis by simp
qed


text \<open>The list \<open>one_pair\<close> is not empty and has a pair of similarity 0.9.\<close>

theorem recommendations_pramana_iff_witness:
  "one_pair \<noteq> []
   \<and> (\<exists>n. pramana_rec n \<in> set (generate_dialogue_recommendations alphabetical one_pair))
   \<and> (\<exists>a\<in>set one_pair. pramana_similarity a > 0.6)
   \<and> length (generate_dialogue_recommendations alphabetical one_pair) \<le> 4"
proof -
  have ne: "one_pair \<noteq> []" by (simp add: one_pair_def)
  have hi: "\<exists>a\<in>set one_pair. pramana_similarity a > 0.6" by (simp add: one_pair_def)
  from recommendations_pramana_iff[OF ne, of alphabetical] ne hi show ?thesis by simp
qed

subsection \<open>Shared values of a pair\<close>

text \<open>
  What follows uses of an iteration of a set only that it lists each element of the
  set once, so it holds for the three orders of a call whatever they are.
\<close>

lemma set_iter_props:
  assumes "finite S"
  shows "set (set_iter h S) = S" and "distinct (set_iter h S)"
  using assms by (simp_all add: set_iter_def)

lemma add_related_props:
  "set (add_related a b sh) =
     set sh \<union> (if a \<in> set (related_get b) \<or> b \<in> set (related_get a) then {a, b} else {})"
  "distinct sh \<Longrightarrow> distinct (add_related a b sh)"
  by (auto simp: add_related_def Let_def)

lemma inner_loop_props:
  "set (fold (\<lambda>b. add_related a b) bs sh) =
     set sh \<union> {x. \<exists>b\<in>set bs. (a \<in> set (related_get b) \<or> b \<in> set (related_get a))
                     \<and> (x = a \<or> x = b)}"
  "distinct sh \<Longrightarrow> distinct (fold (\<lambda>b. add_related a b) bs sh)"
proof (induction bs arbitrary: sh)
  case Nil
  { case 1 show ?case by simp }
  { case 2 then show ?case by simp }
next
  case (Cons b bs)
  { case 1 show ?case by (simp only: fold_simps Cons.IH(1) add_related_props(1)) auto }
  { case 2 then show ?case by (simp add: Cons.IH(2) add_related_props(2)) }
qed

lemma outer_loop_props:
  "set (fold (\<lambda>a sh. fold (\<lambda>b. add_related a b) bs sh) as sh) =
     set sh \<union> {x. \<exists>a\<in>set as. \<exists>b\<in>set bs.
                     (a \<in> set (related_get b) \<or> b \<in> set (related_get a)) \<and> (x = a \<or> x = b)}"
  "distinct sh \<Longrightarrow> distinct (fold (\<lambda>a sh. fold (\<lambda>b. add_related a b) bs sh) as sh)"
proof (induction as arbitrary: sh)
  case Nil
  { case 1 show ?case by simp }
  { case 2 then show ?case by simp }
next
  case (Cons a as)
  { case 1 show ?case by (simp only: fold_simps Cons.IH(1) inner_loop_props(1)) auto }
  { case 2 then show ?case by (simp add: Cons.IH(2) inner_loop_props(2)) }
qed

lemma all_shared_props:
  assumes "finite A" "finite B"
  shows "set (all_shared os A B) =
           (A \<inter> B) \<union> {x. \<exists>a\<in>A. \<exists>b\<in>B.
               (a \<in> set (related_get b) \<or> b \<in> set (related_get a)) \<and> (x = a \<or> x = b)}"
    and "distinct (all_shared os A B)"
  using assms by (simp_all add: all_shared_def outer_loop_props set_iter_props)

lemma all_shared_set_swap:
  assumes "finite A" "finite B"
  shows "set (all_shared os A B) = set (all_shared os' B A)"
  unfolding all_shared_props(1)[OF assms] all_shared_props(1)[OF assms(2) assms(1)]
  by auto

lemma all_shared_length_swap:
  assumes "finite A" "finite B"
  shows "length (all_shared os A B) = length (all_shared os' B A)"
proof -
  have "length (all_shared os A B) = card (set (all_shared os A B))"
    using all_shared_props(2)[OF assms] by (simp add: distinct_card)
  also have "\<dots> = card (set (all_shared os' B A))"
    by (simp only: all_shared_set_swap[OF assms, of os os'])
  also have "\<dots> = length (all_shared os' B A)"
    using all_shared_props(2)[OF assms(2) assms(1)] by (simp add: distinct_card)
  finally show ?thesis .
qed


lemma find_shared_values_length_swap:
  "length (find_shared_values os a b) = length (find_shared_values os' b a)"
  using all_shared_length_swap[of "set (get_top_values a)" "set (get_top_values b)" os os']
  by (simp add: find_shared_values_def)


lemma find_shared_values_set_swap:
  assumes "length (all_shared os (set (get_top_values a)) (set (get_top_values b))) \<le> 5"
  shows "set (find_shared_values os a b) = set (find_shared_values os' b a)"
proof -
  have "length (all_shared os' (set (get_top_values b)) (set (get_top_values a))) \<le> 5"
    using assms
      all_shared_length_swap[of "set (get_top_values a)" "set (get_top_values b)" os os']
    by simp
  with assms show ?thesis
    by (simp add: find_shared_values_def all_shared_set_swap[of _ _ os os'])
qed

lemma compare_pramana_swap: "compare_pramana a b = compare_pramana b a"
  by (auto simp: compare_pramana_def Let_def insert_commute)

lemma compare_reasoning_swap: "compare_reasoning a b = compare_reasoning b a"
  by (auto simp: compare_reasoning_def Let_def)

lemma strength_length:
  "length sh = length sh' \<Longrightarrow>
     calculate_agreement_strength sh ps rc = calculate_agreement_strength sh' ps rc"
  by (simp add: calculate_agreement_strength_def)

subsection \<open>Swapping the two speakers of a pair\<close>

lemma pair_agreement_eq:
  "pair_agreement hs ((pa, a), (pb, b)) =
     [\<lparr> person_a = pa, person_b = pb, shared_values = find_shared_values (hs pa pb) a b,
        agreement_strength =
          calculate_agreement_strength (find_shared_values (hs pa pb) a b)
            (compare_pramana a b) (compare_reasoning a b),
        pramana_similarity = compare_pramana a b,
        reasoning_compatibility = compare_reasoning a b,
        dialogue_insight =
          generate_insight pa pb (find_shared_values (hs pa pb) a b) a b
            (compare_pramana a b) \<rparr>]"
proof -
  have "agreement_threshold <
          calculate_agreement_strength (find_shared_values (hs pa pb) a b)
            (compare_pramana a b) (compare_reasoning a b)"
    using strength_ge[OF compare_pramana_ge[of a b] compare_reasoning_ge[of a b],
            where sh = "find_shared_values (hs pa pb) a b"]
    by (simp add: agreement_threshold_def)
  then show ?thesis by (simp add: pair_agreement_def Let_def)
qed

lemma detect_agreements_two:
  "detect_agreements hs [(pa, a), (pb, b)] = pair_agreement hs ((pa, a), (pb, b))"
  by (simp add: detect_agreements_def pair_agreement_eq)

lemma neq_by_member: "x \<in> A \<Longrightarrow> x \<notin> B \<Longrightarrow> A \<noteq> B"
  by blast

lemma singleton_neq: "x \<noteq> y \<Longrightarrow> [x] \<noteq> [y]"
  by simp

text \<open>
  The sample profiles are those of the sample narratives; the shared values of the
  sample pairs, in both orders of the speakers.
\<close>

lemma short_profiles:
  "analyze_each [] [asha_short, ravi_short] =
     Inr [(''Asha'', asha_short_profile), (''Ravi'', ravi_short_profile)]"
  by code_simp


lemma short_swap:
  "map shared_values (detect_agreements (same_order alphabetical)
      [(''Asha'', asha_short_profile), (''Ravi'', ravi_short_profile)])
     = [[''health_and_wellbeing'', ''family_protection'']]"
  "map shared_values (detect_agreements (same_order alphabetical)
      [(''Ravi'', ravi_short_profile), (''Asha'', asha_short_profile)])
     = [[''family_protection'', ''health_and_wellbeing'']]"
  by code_simp+

lemma long_swap:
  "map shared_values (detect_agreements (same_order alphabetical)
      [(''Asha'', asha_long_profile), (''Ravi'', ravi_long_profile)])
     = [[''justice_and_fairness'', ''progress_and_innovation'', ''economic_security'',
         ''community_wellbeing'', ''family_protection'']]"
  "map shared_values (detect_agreements (same_order alphabetical)
      [(''Ravi'', ravi_long_profile), (''Asha'', asha_long_profile)])
     = [[''justice_and_fairness'', ''progress_and_innovation'', ''community_wellbeing'',
         ''economic_security'', ''health_and_wellbeing'']]"
  by code_simp+


text \<open>For the short pair the two lists are these under all orders of the sets.\<close>

lemma short_pair_any_order:
  "find_shared_values os asha_short_profile ravi_short_profile
     = [''health_and_wellbeing'', ''family_protection'']"
  "find_shared_values os ravi_short_profile asha_short_profile
     = [''family_protection'', ''health_and_wellbeing'']"
  by (simp_all add: find_shared_values_def all_shared_def set_iter_def get_top_values_def
        asha_short_profile_def ravi_short_profile_def add_related_def related_get_def
        related_values_def)

text \<open>
  Claim C4, as stated, fails for \<open>shared_values\<close>. Related values are appended in
  the order speaker A's value, speaker B's value, so swapping the speakers changes
  the order of the list (first two equations); and the cap at five entries then cuts
  different values, so that even the sets of shared values differ (last
  inequation).
\<close>

theorem detect_agreements_swap_differs:
  "map shared_values (detect_agreements (same_order alphabetical)
      [(''Asha'', asha_short_profile), (''Ravi'', ravi_short_profile)])
     = [[''health_and_wellbeing'', ''family_protection'']]
   \<and> map shared_values (detect_agreements (same_order alphabetical)
      [(''Ravi'', ravi_short_profile), (''Asha'', asha_short_profile)])
     = [[''family_protection'', ''health_and_wellbeing'']]
   \<and> map (set \<circ> shared_values) (detect_agreements (same_order alphabetical)
      [(''Asha'', asha_long_profile), (''Ravi'', ravi_long_profile)])
     \<noteq> map (set \<circ> shared_values) (detect_agreements (same_order alphabetical)
      [(''Ravi'', ravi_long_profile), (''Asha'', asha_long_profile)])"
proof -
  let ?l1 = "[''justice_and_fairness'', ''progress_and_innovation'', ''economic_security'',
         ''community_wellbeing'', ''family_protection'']"
  let ?l2 = "[''justice_and_fairness'', ''progress_and_innovation'', ''community_wellbeing'',
         ''economic_security'', ''health_and_wellbeing'']"
  let ?d1 = "detect_agreements (same_order alphabetical)
      [(''Asha'', asha_long_profile), (''Ravi'', ravi_long_profile)]"
  let ?d2 = "detect_agreements (same_order alphabetical)
      [(''Ravi'', ravi_long_profile), (''Asha'', asha_long_profile)]"
  have "map set (map shared_values ?d1) = map set [?l1]" by (simp only: long_swap(1))
  then have a: "map (set \<circ> shared_values) ?d1 = [set ?l1]" by (simp only: map_map list.map)
  have "map set (map shared_values ?d2) = map set [?l2]" by (simp only: long_swap(2))
  then have b: "map (set \<circ> shared_values) ?d2 = [set ?l2]" by (simp only: map_map list.map)
  have i: "''family_protection'' \<in> set ?l1" by simp
  have o: "''family_protection'' \<notin> set ?l2" by simp
  have ne: "set ?l1 \<noteq> set ?l2" by (rule neq_by_member[OF i o])
  have "[set ?l1] \<noteq> [set ?l2]" by (rule singleton_neq[OF ne])
  then have "map (set \<circ> shared_values) ?d1 \<noteq> map (set \<circ> shared_values) ?d2"
    unfolding a b .
  with short_swap show ?thesis by (intro conjI)
qed

text \<open>
  Claim C4, amended. For every two profiles and whatever the orders in which the two
  calls iterate their sets (\<open>hs\<close> for one assignment of the roles, \<open>hs'\<close> for the
  other), swapping the speakers swaps the labels and leaves \<open>pramana_similarity\<close>,
  \<open>reasoning_compatibility\<close>, the number of shared values and the agreement strength
  unchanged; when the pair has at most five shared or related values in all (nothing
  is cut by the cap), the set of shared values is unchanged too.
\<close>

theorem detect_agreements_swap:
  "\<exists>x y. detect_agreements hs [(pa, a), (pb, b)] = [x]
       \<and> detect_agreements hs' [(pb, b), (pa, a)] = [y]
       \<and> person_a x = pa \<and> person_b x = pb \<and> person_a y = pb \<and> person_b y = pa
       \<and> pramana_similarity x = pramana_similarity y
       \<and> reasoning_compatibility x = reasoning_compatibility y
       \<and> length (shared_values x) = length (shared_values y)
       \<and> agreement_strength x = agreement_strength y
       \<and> (length (all_shared (hs pa pb) (set (get_top_values a)) (set (get_top_values b))) \<le> 5
            \<longrightarrow> set (shared_values x) = set (shared_values y))"
proof -
  have len: "length (find_shared_values (hs pa pb) a b)
               = length (find_shared_values (hs' pb pa) b a)"
    by (rule find_shared_values_length_swap)
  have str: "calculate_agreement_strength (find_shared_values (hs pa pb) a b)
               (compare_pramana a b) (compare_reasoning a b)
             = calculate_agreement_strength (find_shared_values (hs' pb pa) b a)
               (compare_pramana b a) (compare_reasoning b a)"
    using strength_length[OF len] compare_pramana_swap[of a b] compare_reasoning_swap[of a b]
    by simp
  show ?thesis
    unfolding detect_agreements_two pair_agreement_eq
    using len str compare_pramana_swap[of a b] compare_reasoning_swap[of a b]
      find_shared_values_set_swap[of "hs pa pb" a b "hs' pb pa"]
    by simp
qed

text \<open>
  The short sample pair, one call with alphabetical orders and the other with
  \<open>progress_and_innovation\<close> first: two related values, nothing cut, the same set.
\<close>

theorem detect_agreements_swap_witness:
  "length (all_shared (same_order alphabetical ''Asha'' ''Ravi'')
       (set (get_top_values asha_short_profile))
       (set (get_top_values ravi_short_profile))) \<le> 5
   \<and> map (set \<circ> shared_values) (detect_agreements (same_order alphabetical)
        [(''Asha'', asha_short_profile), (''Ravi'', ravi_short_profile)])
     = map (set \<circ> shared_values) (detect_agreements (same_order progress_first)
        [(''Ravi'', ravi_short_profile), (''Asha'', asha_short_profile)])
   \<and> map pramana_similarity (detect_agreements (same_order alphabetical)
        [(''Asha'', asha_short_profile), (''Ravi'', ravi_short_profile)])
     = map pramana_similarity (detect_agreements (same_order progress_first)
        [(''Ravi'', ravi_short_profile), (''Asha'', asha_short_profile)])"
proof -
  have le: "length (all_shared (same_order alphabetical ''Asha'' ''Ravi'')
       (set (get_top_values asha_short_profile))
       (set (get_top_values ravi_short_profile))) \<le> 5"
    by code_simp
  from detect_agreements_swap[of "same_order alphabetical" "''Asha''" asha_short_profile
         "''Ravi''" ravi_short_profile "same_order progress_first"]
  obtain x y where
    "detect_agreements (same_order alphabetical)
       [(''Asha'', asha_short_profile), (''Ravi'', ravi_short_profile)] = [x]"
    "detect_agreements (same_order progress_first)
       [(''Ravi'', ravi_short_profile), (''Asha'', asha_short_profile)] = [y]"
    "pramana_similarity x = pramana_similarity y"
    "length (all_shared (same_order alphabetical ''Asha'' ''Ravi'')
       (set (get_top_values asha_short_profile))
       (set (get_top_values ravi_short_profile))) \<le> 5
            \<longrightarrow> set (shared_values x) = set (shared_values y)"
    by blast
  with le show ?thesis by simp
qed

section \<open>Properties of the unified analyser\<close>

subsection \<open>No check of the number of speakers\<close>

lemma setitem_keys:
  "map fst (setitem d k v) = (if k \<in> set (map fst d) then map fst d else map fst d @ [k])"
proof (induction d)
  case Nil
  show ?case by simp
next
  case (Cons kv d)
  obtain k' v' where kv: "kv = (k', v')" by (cases kv)
  show ?case
  proof (cases "k' = k")
    case True
    then show ?thesis by (simp add: kv)
  next
    case False
    show ?thesis
    proof (cases "k \<in> set (map fst d)")
      case True
      with False Cons.IH show ?thesis by (simp add: kv)
    next
      case notin: False
      with False Cons.IH show ?thesis by (simp add: kv)
    qed
  qed
qed

lemma analyze_each_total:
  assumes "\<forall>n\<in>set ns. n_speaker n \<noteq> None \<and> n_text n \<noteq> None"
  shows "\<exists>d'. analyze_each d ns = Inr d'
           \<and> set (map fst d') = set (map fst d) \<union> {s. Some s \<in> n_speaker ` set ns}
           \<and> (distinct (map fst d) \<longrightarrow> distinct (map fst d'))"
  using assms
proof (induction ns arbitrary: d)
  case Nil
  show ?case by simp
next
  case (Cons n ns)
  from Cons.prems obtain speaker t where n: "n_speaker n = Some speaker" "n_text n = Some t"
    by auto
  obtain pr where pr: "classify_pramana t = Inr pr"
    using classify_cases[of t] by blast
  let ?d = "setitem d speaker
              \<lparr> a_pramana = Some pr, a_values = Some (extract_values t),
                a_reasoning = Some (analyze_reasoning t), a_text = Some t \<rparr>"
  from Cons.prems have "\<forall>n\<in>set ns. n_speaker n \<noteq> None \<and> n_text n \<noteq> None" by simp
  from Cons.IH[OF this, of ?d] obtain d' where
    d': "analyze_each ?d ns = Inr d'"
        "set (map fst d') = set (map fst ?d) \<union> {s. Some s \<in> n_speaker ` set ns}"
        "distinct (map fst ?d) \<longrightarrow> distinct (map fst d')"
    by blast
  have step: "analyze_each d (n # ns) = analyze_each ?d ns"
    by (simp add: n pr)
  have keys: "set (map fst ?d) = insert speaker (set (map fst d))"
    by (auto simp: setitem_keys)
  have dist: "distinct (map fst d) \<Longrightarrow> distinct (map fst ?d)"
    by (simp add: setitem_keys)
  have sp: "{s. Some s \<in> n_speaker ` set (n # ns)}
              = insert speaker {s. Some s \<in> n_speaker ` set ns}"
    using n(1) by auto
  show ?case
    unfolding step sp using d' keys dist by auto
qed

lemma card_speakers:
  assumes "\<forall>n\<in>set ns. n_speaker n \<noteq> None"
  shows "card {s. Some s \<in> n_speaker ` set ns} = card (n_speaker ` set ns)"
proof -
  have "Some ` {s. Some s \<in> n_speaker ` set ns} = n_speaker ` set ns"
    using assms by (auto simp: image_iff) (metis option.exhaust_sel)
  then have "card (n_speaker ` set ns) = card (Some ` {s. Some s \<in> n_speaker ` set ns})"
    by simp
  also have "\<dots> = card {s. Some s \<in> n_speaker ` set ns}"
    by (rule card_image) simp
  finally show ?thesis by simp
qed

text \<open>
  Claim C1, as stated, fails: for a single narrative \<open>analyze_dialogue\<close> returns a
  result (one profile, no agreement) instead of failing.
\<close>

lemma analyze_each_keys:
  "analyze_each d ns = Inr d' \<Longrightarrow>
     map Some (map fst d') =
       fold (\<lambda>x seen. if x \<in> set seen then seen else seen @ [x]) (map n_speaker ns)
         (map Some (map fst d))"
proof (induction ns arbitrary: d)
  case Nil
  then show ?case by simp
next
  case (Cons n ns)
  from Cons.prems obtain speaker t pr where
    n: "n_speaker n = Some speaker" "n_text n = Some t" "classify_pramana t = Inr pr"
    by (auto split: option.splits sum.splits)
  let ?d = "setitem d speaker
              \<lparr> a_pramana = Some pr, a_values = Some (extract_values t),
                a_reasoning = Some (analyze_reasoning t), a_text = Some t \<rparr>"
  from Cons.prems have "analyze_each ?d ns = Inr d'" by (simp add: n)
  from Cons.IH[OF this] have ih:
    "map Some (map fst d') =
       fold (\<lambda>x seen. if x \<in> set seen then seen else seen @ [x]) (map n_speaker ns)
         (map Some (map fst ?d))" .
  have "map Some (map fst ?d) =
          (if Some speaker \<in> set (map Some (map fst d)) then map Some (map fst d)
           else map Some (map fst d) @ [Some speaker])"
    by (auto simp: setitem_keys)
  with ih show ?case by (simp add: n)
qed

lemma combinations2_map:
  "combinations2 (map f xs) = map (\<lambda>(x, y). (f x, f y)) (combinations2 xs)"
  by (induction xs) simp_all

lemma persons_of_pairs:
  "map persons (concat (map (pair_agreement hs) ps)) = map (\<lambda>(x, y). (fst x, fst y)) ps"
proof (induction ps)
  case Nil
  show ?case by simp
next
  case (Cons pr ps)
  obtain pa a pb b where pr: "pr = ((pa, a), (pb, b))" by (metis surj_pair)
  have "map persons (pair_agreement hs pr) = [(pa, pb)]"
    unfolding pr pair_agreement_eq by (simp add: persons_def)
  with Cons show ?case by (simp add: pr)
qed

lemma persons_detected:
  "\<exists>ags. detect_agreements hs d = sort_key (\<lambda>a. - strength_as_float a) ags
         \<and> map persons ags = combinations2 (map fst d)"
proof -
  have "map persons (concat (map (pair_agreement hs) (combinations2 d)))
          = combinations2 (map fst d)"
    by (simp only: persons_of_pairs combinations2_map)
  then show ?thesis unfolding detect_agreements_def by blast
qed

text \<open>
  Claim C1, as stated, fails: for a single narrative \<open>analyze_dialogue\<close> returns a
  result (one profile, no agreement) instead of failing.
\<close>

theorem analyze_dialogue_single_speaker:
  "analyze_dialogue (same_order alphabetical) [asha_short] =
     Inr \<lparr> individual_analyses = [(''Asha'', asha_short_profile)],
           hidden_agreements = [],
           narratives = [asha_short] \<rparr>"
  by code_simp

text \<open>
  Claim C1, amended. \<open>analyze_dialogue\<close> does not check the number of speakers
  (its callers do): for every sequence of narratives that all have a speaker and a
  text it returns a result. The speakers of the profiles are the distinct speakers
  of the narratives, each once, in the order of their first narrative; the
  agreements are, sorted by strength, one for each pair of these speakers, taken as
  \<open>combinations\<close> lists the pairs. So there are as many profiles as distinct
  speakers, \<open>k * (k - 1) / 2\<close> agreements for \<open>k\<close> distinct speakers, and with
  fewer than 2 distinct speakers the list of agreements is empty.
\<close>

theorem analyze_dialogue_no_validation:
  assumes "\<forall>n\<in>set ns. n_speaker n \<noteq> None \<and> n_text n \<noteq> None"
  shows "\<exists>r. analyze_dialogue hs ns = Inr r
           \<and> narratives r = ns
           \<and> map Some (map fst (individual_analyses r)) = first_seen (map n_speaker ns)
           \<and> (\<exists>ags. hidden_agreements r = sort_key (\<lambda>a. - strength_as_float a) ags
                  \<and> map persons ags = combinations2 (map fst (individual_analyses r)))
           \<and> length (individual_analyses r) = card (n_speaker ` set ns)
           \<and> length (hidden_agreements r)
               = card (n_speaker ` set ns) * (card (n_speaker ` set ns) - 1) div 2
           \<and> (card (n_speaker ` set ns) < 2 \<longrightarrow> hidden_agreements r = [])"
proof -
  from analyze_each_total[OF assms, of "[]"] obtain d where
    d: "analyze_each [] ns = Inr d"
       "set (map fst d) = {s. Some s \<in> n_speaker ` set ns}"
       "distinct (map fst d)"
    by auto
  have keys: "map Some (map fst d) = first_seen (map n_speaker ns)"
    using analyze_each_keys[OF d(1)] by (simp add: first_seen_def)
  have "length d = card (set (map fst d))"
    using d(3) distinct_card[of "map fst d"] by simp
  also have "\<dots> = card (n_speaker ` set ns)"
    unfolding d(2) using assms by (simp add: card_speakers)
  finally have len: "length d = card (n_speaker ` set ns)" .
  have cnt: "length (detect_agreements hs d) = length d * (length d - 1) div 2"
    by (rule length_detect_agreements)
  have none: "detect_agreements hs d = []" if "card (n_speaker ` set ns) < 2"
  proof -
    from that len have "length d < 2" by simp
    then have "length d * (length d - 1) div 2 = 0"
      by (cases d; cases "tl d") auto
    with cnt show ?thesis by simp
  qed
  show ?thesis
    using d(1) keys len cnt none persons_detected[of hs d]
    by (simp add: analyze_dialogue_def)
qed

text \<open>Two narratives of the same speaker: one distinct speaker, no agreement.\<close>

theorem analyze_dialogue_no_validation_witness:
  "n_speaker asha_short \<noteq> None \<and> n_text asha_short \<noteq> None
   \<and> card (n_speaker ` set [asha_short, asha_short]) < 2
   \<and> (\<exists>r. analyze_dialogue (same_order alphabetical) [asha_short, asha_short] = Inr r
          \<and> narratives r = [asha_short, asha_short] \<and> hidden_agreements r = [])"
proof -
  have f: "n_speaker asha_short \<noteq> None \<and> n_text asha_short \<noteq> None"
    by (simp add: asha_short_def)
  then have hyp: "\<forall>n\<in>set [asha_short, asha_short]. n_speaker n \<noteq> None \<and> n_text n \<noteq> None"
    by simp
  have c: "card (n_speaker ` set [asha_short, asha_short]) < 2" by simp
  from analyze_dialogue_no_validation[OF hyp, of "same_order alphabetical"] c
  have "\<exists>r. analyze_dialogue (same_order alphabetical) [asha_short, asha_short] = Inr r
          \<and> narratives r = [asha_short, asha_short] \<and> hidden_agreements r = []"
    by blast
  with f c show ?thesis by (intro conjI) (elim conjE, assumption)+
qed

subsection \<open>Dependence on the order in which sets are iterated\<close>













end
